theory Spec2Isabelle
  imports Complex_Main
begin

section \<open>Data model of the anomaly detection engine\<close>

text \<open>
  The engine is the class \<open>AnomalyDetector\<close> of \<open>services/anomalyDetector.js\<close>. JavaScript
  numbers are reals. The arithmetic of the source on measured values (sums, means,
  deviations, quotients) is rounded to double precision, operation by operation (see
  \<open>dbl\<close> below); counters, scores and timestamps are integers, on which the arithmetic
  of the source is exact; comparisons are exact. There are no NaN and no infinities; the
  one place where the source can produce NaN on well-formed input, \<open>parseInt\<close> of the
  pressure string, is an \<open>option\<close>. Strings are ASCII. Timestamps are milliseconds since
  the epoch.
\<close>

record vitals =
  heartRate :: real
  bloodPressure :: string
  spo2 :: real
  bodyTemperature :: real
  motionLevel :: real
  fallRiskScore :: real
  timestamp :: int

text \<open>\<open>alertThresholds\<close> of a patient profile; the two arrays have two entries each.\<close>

record alertThresholds =
  hrCritical :: "real \<times> real"
  bpCritical :: "real \<times> real"
  spo2Critical :: real

record patient =
  patientId :: string
  name :: string
  isActive :: bool
  thresholds :: alertThresholds

text \<open>The \<open>type\<close> field of an alert, and the \<open>severity\<close> of a detection result.\<close>

datatype alert_type = Warning | Critical

datatype severity = SevNormal | SevWarning | SevCritical

datatype category =
    bradycardia | tachycardia | hypertensive_crisis | hypotension | hypoxemia
  | fever | hypothermia | fall_detected | hr_anomaly | spo2_declining
  | sustained_inactivity | nocturnal_activity

text \<open>
  A message is the template literal of the source, piece by piece: literal ASCII text, a
  non-ASCII code point of the template, an interpolated number, a number rendered by
  \<open>toFixed\<close> with the given count of decimals, and an interpolated string.
\<close>

datatype piece = Txt string | Uni nat | Num real | Fixed nat real | Str string

record alert =
  atype :: alert_type
  acategory :: category
  message :: "piece list"
  avalue :: real

record history_entry =
  h_timestamp :: int
  h_alerts :: "alert list"
  h_severity :: severity

text \<open>
  The detector's fields: \<open>this.dataWindow\<close>, \<open>this.anomalyHistory\<close> (objects keyed by
  patient id) and whether \<open>this.HealthRecord\<close> has been injected.
\<close>

record detector =
  dataWindow :: "string \<rightharpoonup> vitals list"
  anomalyHistory :: "string \<rightharpoonup> history_entry list"
  hasHealthRecord :: bool

definition new_detector :: detector where
  "new_detector = \<lparr>dataWindow = Map.empty, anomalyHistory = Map.empty, hasHealthRecord = False\<rparr>"

definition setHealthRecordModel :: "detector \<Rightarrow> detector" where
  "setHealthRecordModel d = d\<lparr>hasHealthRecord := True\<rparr>"

record detection =
  isAnomaly :: bool
  d_severity :: severity
  alerts :: "alert list"
  normalizedScore :: nat

section \<open>The rolling window\<close>

text \<open>\<open>addToWindow\<close>: push, then one \<open>shift\<close> when the length has passed 288.\<close>

definition addToWindow :: "detector \<Rightarrow> string \<Rightarrow> vitals \<Rightarrow> detector" where
  "addToWindow d pid v =
     (let w = (case dataWindow d pid of None \<Rightarrow> [] | Some w \<Rightarrow> w);
          w1 = w @ [v];
          w2 = (if length w1 > 288 then tl w1 else w1)
      in d\<lparr>dataWindow := (dataWindow d)(pid \<mapsto> w2)\<rparr>)"

text \<open>Sequential appends of a list of samples for one patient.\<close>

definition appendAll :: "detector \<Rightarrow> string \<Rightarrow> vitals list \<Rightarrow> detector" where
  "appendAll d pid vs = foldl (\<lambda>d' v. addToWindow d' pid v) d vs"

text \<open>The window of a patient, empty when the patient has none yet.\<close>

definition window_of :: "detector \<Rightarrow> string \<Rightarrow> vitals list" where
  "window_of d pid = (case dataWindow d pid of None \<Rightarrow> [] | Some w \<Rightarrow> w)"

definition resetPatient :: "detector \<Rightarrow> string \<Rightarrow> detector" where
  "resetPatient d pid =
     d\<lparr>dataWindow := (dataWindow d)(pid := None), anomalyHistory := (anomalyHistory d)(pid := None)\<rparr>"

section \<open>Critical thresholds\<close>

text \<open>
  \<open>parseInt\<close> with no radix: leading white space, an optional sign, an optional
  \<open>0x\<close> prefix that switches to radix 16, then the longest run of digits; NaN
  (\<open>None\<close>) when that run is empty.
\<close>

definition js_white :: "char \<Rightarrow> bool" where
  "js_white c = (c \<in> set [CHR 0x20, CHR 0x09, CHR 0x0A, CHR 0x0B, CHR 0x0C, CHR 0x0D])"

definition digit_of :: "nat \<Rightarrow> char \<Rightarrow> nat option" where
  "digit_of R c =
     (let k = (of_char c :: nat);
          d = (if 48 \<le> k \<and> k \<le> 57 then Some (k - 48)
               else if 97 \<le> k \<and> k \<le> 122 then Some (k - 87)
               else if 65 \<le> k \<and> k \<le> 90 then Some (k - 55)
               else None)
      in case d of None \<Rightarrow> None | Some v \<Rightarrow> if v < R then Some v else None)"

definition radix_value :: "nat \<Rightarrow> string \<Rightarrow> nat" where
  "radix_value R z = foldl (\<lambda>acc c. acc * R + (case digit_of R c of None \<Rightarrow> 0 | Some v \<Rightarrow> v)) 0 z"

definition parseInt :: "string \<Rightarrow> int option" where
  "parseInt s =
     (let s1 = dropWhile js_white s;
          neg = (case s1 of [] \<Rightarrow> False | c # _ \<Rightarrow> c = CHR ''-'');
          s2 = (case s1 of [] \<Rightarrow> [] | c # cs \<Rightarrow> if c = CHR ''+'' \<or> c = CHR ''-'' then cs else s1);
          hex = (take 2 s2 = ''0x'' \<or> take 2 s2 = ''0X'');
          R = (if hex then 16 else 10);
          s3 = (if hex then drop 2 s2 else s2);
          z = takeWhile (\<lambda>c. digit_of R c \<noteq> None) s3
      in if z = [] then None
         else Some ((if neg then - 1 else 1) * int (radix_value R z)))"

text \<open>
  \<open>vitals.bloodPressure.split("/").map((x) => parseInt(x))\<close>, first component: the text
  before the first slash, parsed.
\<close>

definition systolic_of :: "string \<Rightarrow> int option" where
  "systolic_of bp = parseInt (takeWhile (\<lambda>c. c \<noteq> CHR ''/'') bp)"

definition hr_alerts :: "vitals \<Rightarrow> alertThresholds \<Rightarrow> alert list" where
  "hr_alerts v t =
     (if heartRate v < fst (hrCritical t) then
        [\<lparr>atype = Critical, acategory = bradycardia,
          message = [Uni 0x26A0, Uni 0xFE0F, Txt '' BRADYCARDIA: HR '', Num (heartRate v),
                     Txt '' bpm (< '', Num (fst (hrCritical t)), Txt '')''],
          avalue = heartRate v\<rparr>]
      else if heartRate v > snd (hrCritical t) then
        [\<lparr>atype = Critical, acategory = tachycardia,
          message = [Uni 0x26A0, Uni 0xFE0F, Txt '' TACHYCARDIA: HR '', Num (heartRate v),
                     Txt '' bpm (> '', Num (snd (hrCritical t)), Txt '')''],
          avalue = heartRate v\<rparr>]
      else [])"

text \<open>A NaN systolic value compares false with both limits.\<close>

definition bp_alerts :: "vitals \<Rightarrow> alertThresholds \<Rightarrow> alert list" where
  "bp_alerts v t =
     (case systolic_of (bloodPressure v) of
        None \<Rightarrow> []
      | Some systolic \<Rightarrow>
          if real_of_int systolic > fst (bpCritical t) then
            [\<lparr>atype = Critical, acategory = hypertensive_crisis,
              message = [Uni 0x1F534, Txt '' HYPERTENSIVE CRISIS: BP '', Str (bloodPressure v),
                         Txt '' (Systolic > '', Num (fst (bpCritical t)), Txt '')''],
              avalue = real_of_int systolic\<rparr>]
          else if real_of_int systolic < snd (bpCritical t) then
            [\<lparr>atype = Critical, acategory = hypotension,
              message = [Uni 0x1F534, Txt '' HYPOTENSION: BP '', Str (bloodPressure v),
                         Txt '' (Systolic < '', Num (snd (bpCritical t)), Txt '')''],
              avalue = real_of_int systolic\<rparr>]
          else [])"

definition spo2_alerts :: "vitals \<Rightarrow> alertThresholds \<Rightarrow> alert list" where
  "spo2_alerts v t =
     (if spo2 v < spo2Critical t then
        [\<lparr>atype = Critical, acategory = hypoxemia,
          message = [Uni 0x1F534, Txt '' HYPOXEMIA: SpO'', Uni 0x2082, Txt '' '', Num (spo2 v),
                     Txt ''% (< '', Num (spo2Critical t), Txt ''%)''],
          avalue = spo2 v\<rparr>]
      else [])"

definition temp_alerts :: "vitals \<Rightarrow> alert list" where
  "temp_alerts v =
     (if bodyTemperature v > 38.5 then
        [\<lparr>atype = Warning, acategory = fever,
          message = [Uni 0x1F321, Uni 0xFE0F, Txt '' FEVER: Temperature '',
                     Num (bodyTemperature v), Uni 0xB0, Txt ''C''],
          avalue = bodyTemperature v\<rparr>]
      else if bodyTemperature v < 35.0 then
        [\<lparr>atype = Critical, acategory = hypothermia,
          message = [Uni 0x2744, Uni 0xFE0F, Txt '' HYPOTHERMIA: Temperature '',
                     Num (bodyTemperature v), Uni 0xB0, Txt ''C''],
          avalue = bodyTemperature v\<rparr>]
      else [])"

definition checkCriticalVitals :: "vitals \<Rightarrow> patient \<Rightarrow> alert list" where
  "checkCriticalVitals v p =
     hr_alerts v (thresholds p) @ bp_alerts v (thresholds p) @ spo2_alerts v (thresholds p)
       @ temp_alerts v"

section \<open>Fall detection\<close>

definition fall_alerts :: "string \<Rightarrow> vitals \<Rightarrow> alert list" where
  "fall_alerts pid v =
     (if fallRiskScore v > 80 then
        [\<lparr>atype = Critical, acategory = fall_detected,
          message = [Uni 0x1F6A8, Txt '' FALL DETECTED: Patient '', Str pid,
                     Txt '' - Risk Score '', Num (fallRiskScore v), Txt ''%''],
          avalue = fallRiskScore v\<rparr>]
      else [])"

section \<open>Double-precision arithmetic\<close>

text \<open>
  The result of an arithmetic operation on doubles is the exact result rounded to the
  nearest double, ties going to the even significand. \<open>dbl\<close> is that rounding for a
  significand of 53 bits: \<open>ulp x\<close> is the distance between the doubles around \<open>x\<close>. The
  exponent is not bounded, so \<open>dbl\<close> is the rounding of the source as long as no
  intermediate value leaves the normal range of doubles (no overflow, no underflow).
  \<open>Math.sqrt\<close> and \<open>Math.pow(x, 2)\<close> are taken as correctly rounded, as the engines
  compute them (\<open>pow\<close> with exponent 2 is the product \<open>x * x\<close>). The logarithm in
  \<open>ulp\<close> is not evaluated: the lemmas \<open>dbl_exact\<close>, \<open>dbl_near\<close> and \<open>dbl_sqrt_near\<close>
  give the value of \<open>dbl\<close> at a concrete number from comparisons of rationals.
\<close>

definition round_even :: "real \<Rightarrow> int" where
  "round_even y =
     (if y - of_int \<lfloor>y\<rfloor> < 1 / 2 then \<lfloor>y\<rfloor>
      else if y - of_int \<lfloor>y\<rfloor> > 1 / 2 then \<lfloor>y\<rfloor> + 1
      else if even \<lfloor>y\<rfloor> then \<lfloor>y\<rfloor> else \<lfloor>y\<rfloor> + 1)"

definition ulp :: "real \<Rightarrow> real" where
  "ulp x = 2 powr of_int (\<lfloor>log 2 \<bar>x\<bar>\<rfloor> - 52)"

definition dbl :: "real \<Rightarrow> real" where
  "dbl x = (if x = 0 then 0 else ulp x * of_int (round_even (x / ulp x)))"

text \<open>
  \<open>xs.reduce((a, b) => a + b)\<close>: the first element, then the others added from left to
  right, each sum rounded. On the empty array the source throws; both callers hold at
  least six entries.
\<close>

definition reduce_add :: "real list \<Rightarrow> real" where
  "reduce_add xs = (case xs of [] \<Rightarrow> 0 | x # rest \<Rightarrow> foldl (\<lambda>a b. dbl (a + b)) x rest)"

section \<open>Statistical anomalies\<close>

definition hrMean :: "vitals list \<Rightarrow> real" where
  "hrMean w = dbl (reduce_add (map heartRate w) / real (length w))"

text \<open>\<open>hrValues.reduce((sum, v) => sum + Math.pow(v - hrMean, 2), 0)\<close>\<close>

definition hrSquares :: "vitals list \<Rightarrow> real" where
  "hrSquares w =
     foldl (\<lambda>sum v. dbl (sum + dbl ((dbl (v - hrMean w)) ^ 2))) 0 (map heartRate w)"

definition hrStd :: "vitals list \<Rightarrow> real" where
  "hrStd w = dbl (sqrt (dbl (hrSquares w / real (length w))))"

text \<open>\<open>(currentVitals.heartRate - hrMean) / (hrStd || 1)\<close>: only a zero deviation is replaced.\<close>

definition hrZScore :: "vitals list \<Rightarrow> vitals \<Rightarrow> real" where
  "hrZScore w cur =
     dbl (dbl (heartRate cur - hrMean w) / (if hrStd w = 0 then 1 else hrStd w))"

text \<open>\<open>window.slice(-12)\<close>: the last twelve entries, or all of them when there are fewer.\<close>

definition last_n :: "nat \<Rightarrow> 'a list \<Rightarrow> 'a list" where
  "last_n n xs = drop (length xs - n) xs"

definition spo2Trend :: "vitals list \<Rightarrow> real" where
  "spo2Trend w = dbl (spo2 (last (last_n 12 w)) - spo2 (hd (last_n 12 w)))"

definition checkStatisticalAnomalies :: "detector \<Rightarrow> string \<Rightarrow> vitals \<Rightarrow> alert list" where
  "checkStatisticalAnomalies d pid cur =
     (case dataWindow d pid of
        None \<Rightarrow> []
      | Some w \<Rightarrow>
          if length w < 12 then []
          else
            (if \<bar>hrZScore w cur\<bar> > 2.5 then
               [\<lparr>atype = (if hrZScore w cur > 0 then Warning else Warning), acategory = hr_anomaly,
                 message = [Uni 0x26A0, Uni 0xFE0F, Txt '' ABNORMAL HR: '', Num (heartRate cur),
                            Txt '' bpm (Z-score: '', Fixed 2 (hrZScore w cur), Txt '')''],
                 avalue = hrZScore w cur\<rparr>]
             else [])
            @ (if spo2Trend w < - 5 then
                 [\<lparr>atype = Warning, acategory = spo2_declining,
                   message = [Uni 0x26A0, Uni 0xFE0F, Txt '' DECLINING SpO'', Uni 0x2082,
                              Txt '': Down '', Fixed 1 \<bar>spo2Trend w\<bar>, Txt ''% in last hour''],
                   avalue = spo2Trend w\<rparr>]
               else []))"

section \<open>Behavioural changes\<close>

text \<open>
  \<open>new Date().getHours()\<close> is the wall clock of the machine at the time of the call, not
  the sample's timestamp; the hour is therefore an argument.
\<close>

definition isNight :: "nat \<Rightarrow> bool" where
  "isNight currentHour = (currentHour \<ge> 22 \<or> currentHour \<le> 6)"

definition avgRecentMotion :: "vitals list \<Rightarrow> real" where
  "avgRecentMotion w =
     dbl (reduce_add (map motionLevel (last_n 6 w)) / real (length (last_n 6 w)))"

definition nightActivityCount :: "vitals list \<Rightarrow> nat" where
  "nightActivityCount w = length (filter (\<lambda>v. motionLevel v > 0.5) (last_n 12 w))"

definition checkBehavioralChanges :: "nat \<Rightarrow> detector \<Rightarrow> string \<Rightarrow> vitals \<Rightarrow> alert list" where
  "checkBehavioralChanges currentHour d pid v =
     (case dataWindow d pid of
        None \<Rightarrow> []
      | Some w \<Rightarrow>
          if length w < 6 then []
          else
            (if \<not> isNight currentHour \<and> avgRecentMotion w < 0.1 \<and> length w > 24
                \<and> list_all (\<lambda>x. motionLevel x < 0.15) (last_n 12 w) then
               [\<lparr>atype = Warning, acategory = sustained_inactivity,
                 message = [Uni 0x26A0, Uni 0xFE0F,
                   Txt '' SUSTAINED INACTIVITY: No movement for > 1 hour during active hours''],
                 avalue = avgRecentMotion w\<rparr>]
             else [])
            @ (if isNight currentHour \<and> motionLevel v > 0.6 \<and> nightActivityCount w > 6 then
                 [\<lparr>atype = Warning, acategory = nocturnal_activity,
                   message = [Uni 0x26A0, Uni 0xFE0F,
                     Txt '' NOCTURNAL WANDERING: Unusual activity during night hours''],
                   avalue = real (nightActivityCount w)\<rparr>]
               else []))"

section \<open>Scoring and aggregation\<close>

definition calculateAnomalyScore :: "alert list \<Rightarrow> nat" where
  "calculateAnomalyScore as =
     (if length as = 0 then 0
      else min 100 (length (filter (\<lambda>a. atype a = Critical) as) * 30
                    + length (filter (\<lambda>a. atype a = Warning) as) * 10))"

definition has_critical :: "alert list \<Rightarrow> bool" where
  "has_critical as = list_ex (\<lambda>a. atype a = Critical) as"

text \<open>
  The severity variable of \<open>detectAnomalies\<close>, assignment by assignment: it starts at
  normal, and each of the four stages updates it as the source does.
\<close>

definition sev_after_critical :: "alert list \<Rightarrow> severity" where
  "sev_after_critical criticalAlerts = (if has_critical criticalAlerts then SevCritical else SevNormal)"

definition sev_after_fall :: "vitals \<Rightarrow> severity \<Rightarrow> severity" where
  "sev_after_fall v s = (if fallRiskScore v > 80 then SevCritical else s)"

definition sev_after_stat :: "alert list \<Rightarrow> severity \<Rightarrow> severity" where
  "sev_after_stat statAlerts s =
     (if has_critical statAlerts then SevCritical
      else if length statAlerts > 0 \<and> s \<noteq> SevCritical then SevWarning
      else s)"

definition sev_after_behavioral :: "alert list \<Rightarrow> severity \<Rightarrow> severity" where
  "sev_after_behavioral behavioralAlerts s = (if has_critical behavioralAlerts then SevCritical else s)"

definition push_history :: "detector \<Rightarrow> string \<Rightarrow> history_entry \<Rightarrow> detector" where
  "push_history d pid e =
     (let h = (case anomalyHistory d pid of None \<Rightarrow> [] | Some h \<Rightarrow> h);
          h1 = h @ [e];
          h2 = (if length h1 > 100 then tl h1 else h1)
      in d\<lparr>anomalyHistory := (anomalyHistory d)(pid \<mapsto> h2)\<rparr>)"

definition collect_alerts :: "nat \<Rightarrow> detector \<Rightarrow> string \<Rightarrow> vitals \<Rightarrow> patient \<Rightarrow> alert list" where
  "collect_alerts currentHour d pid v p =
     checkCriticalVitals v p @ fall_alerts pid v @ checkStatisticalAnomalies d pid v
       @ checkBehavioralChanges currentHour d pid v"

definition collect_severity :: "nat \<Rightarrow> detector \<Rightarrow> string \<Rightarrow> vitals \<Rightarrow> patient \<Rightarrow> severity" where
  "collect_severity currentHour d pid v p =
     sev_after_behavioral (checkBehavioralChanges currentHour d pid v)
       (sev_after_stat (checkStatisticalAnomalies d pid v)
         (sev_after_fall v (sev_after_critical (checkCriticalVitals v p))))"

text \<open>
  \<open>detectAnomalies\<close>: all four evaluators read the detector as it is on entry; the history
  entry is pushed when there is an alert, then the sample goes into the window.
\<close>

definition detectAnomalies ::
  "nat \<Rightarrow> detector \<Rightarrow> string \<Rightarrow> vitals \<Rightarrow> patient \<Rightarrow> detection \<times> detector" where
  "detectAnomalies currentHour d pid v p =
     (let as = collect_alerts currentHour d pid v p;
          sev = collect_severity currentHour d pid v p;
          d1 = (if length as > 0
                then push_history d pid \<lparr>h_timestamp = timestamp v, h_alerts = as, h_severity = sev\<rparr>
                else d);
          d2 = addToWindow d1 pid v
      in (\<lparr>isAnomaly = length as > 0, d_severity = sev, alerts = as,
           normalizedScore = calculateAnomalyScore as\<rparr>, d2))"

section \<open>Persistence as seen by the retrospective run\<close>

text \<open>
  The collections the run reads and writes through the Mongoose models. A health record
  carries the same fields as a sample, \<open>recordedAt\<close> being the sample's timestamp. The
  \<open>detectionDate\<close> of the metadata (the wall clock at the write) is left out.
\<close>

record health_record =
  rec_patientId :: string
  rec_vitals :: vitals

definition recordedAt :: "health_record \<Rightarrow> int" where
  "recordedAt r = timestamp (rec_vitals r)"

record anomaly =
  an_patientId :: string
  an_severity :: severity
  detectedAt :: int
  an_alerts :: "alert list"
  acknowledged :: bool
  retrospective :: bool
  anomalyScore :: nat

record alert_log =
  al_patientId :: string
  al_type :: alert_type
  al_category :: category
  al_message :: "piece list"
  al_value :: real
  al_threshold :: alertThresholds
  al_timestamp :: int
  al_retrospective :: bool

record database =
  patients :: "patient list"
  healthRecords :: "health_record list"
  anomalies :: "anomaly list"
  alertLogs :: "alert_log list"

text \<open>
  A write can be rejected: for the patient and record time of the write, the message of
  the error thrown by \<open>Anomaly.create\<close> or by \<open>AlertLog.insertMany\<close>, if any. Reads
  are taken to succeed.
\<close>

record faults =
  createFails :: "string \<Rightarrow> int \<Rightarrow> string option"
  insertFails :: "string \<Rightarrow> int \<Rightarrow> string option"

definition no_faults :: faults where
  "no_faults = \<lparr>createFails = (\<lambda>_ _. None), insertFails = (\<lambda>_ _. None)\<rparr>"

record options =
  o_patientId :: "string option"
  startDate :: "int option"
  endDate :: "int option"
  updateDatabase :: bool

record patient_summary =
  patientName :: string
  recordsProcessed :: nat
  newAnomalies :: nat
  criticalAnomalies :: nat
  warningAnomalies :: nat

text \<open>An error string of the run, as pieces; a record time is interpolated as a date.\<close>

datatype err_piece = ETxt string | EStr string | EDate int

record results =
  processed :: nat
  newAnomaliesDetected :: nat
  criticalCount :: nat
  warningCount :: nat
  patientsSummary :: "string \<rightharpoonup> patient_summary"
  errors :: "err_piece list list"

definition empty_results :: results where
  "empty_results = \<lparr>processed = 0, newAnomaliesDetected = 0, criticalCount = 0, warningCount = 0,
     patientsSummary = Map.empty, errors = []\<rparr>"

section \<open>Queries\<close>

text \<open>\<open>if (patientId)\<close>: null and the empty string select no patient filter.\<close>

definition pid_filter :: "options \<Rightarrow> string option" where
  "pid_filter opts = (case o_patientId opts of None \<Rightarrow> None | Some s \<Rightarrow> if s = [] then None else Some s)"

definition in_range :: "options \<Rightarrow> int \<Rightarrow> bool" where
  "in_range opts t =
     ((case startDate opts of None \<Rightarrow> True | Some s \<Rightarrow> s \<le> t)
      \<and> (case endDate opts of None \<Rightarrow> True | Some e \<Rightarrow> t \<le> e))"

definition matches_query :: "options \<Rightarrow> string \<Rightarrow> int \<Rightarrow> bool" where
  "matches_query opts pid t =
     ((case pid_filter opts of None \<Rightarrow> True | Some p \<Rightarrow> pid = p) \<and> in_range opts t)"

text \<open>\<open>Patient.find(patientId ? { patientId } : { isActive: true })\<close>\<close>

definition find_patients :: "database \<Rightarrow> options \<Rightarrow> patient list" where
  "find_patients db opts =
     (case pid_filter opts of
        None \<Rightarrow> filter isActive (patients db)
      | Some p \<Rightarrow> filter (\<lambda>x. patientId x = p) (patients db))"

text \<open>\<open>patientMap[p.patientId] = p\<close> for each patient in turn: a later one replaces an earlier.\<close>

definition patientMap :: "patient list \<Rightarrow> string \<rightharpoonup> patient" where
  "patientMap ps = foldl (\<lambda>m p. m(patientId p \<mapsto> p)) Map.empty ps"

text \<open>
  \<open>HealthRecord.find(query).sort({ recordedAt: 1 })\<close>; records of equal time keep their
  stored order.
\<close>

definition find_records :: "database \<Rightarrow> options \<Rightarrow> health_record list" where
  "find_records db opts =
     sort_key recordedAt (filter (\<lambda>r. matches_query opts (rec_patientId r) (recordedAt r)) (healthRecords db))"

text \<open>\<open>Anomaly.find\<close> with the same patient filter and the same range on \<open>detectedAt\<close>.\<close>

definition find_anomalies :: "database \<Rightarrow> options \<Rightarrow> anomaly list" where
  "find_anomalies db opts =
     filter (\<lambda>a. matches_query opts (an_patientId a) (detectedAt a)) (anomalies db)"

text \<open>
  The context of a patient: the (at most) fifty records just before the given time,
  fetched newest first and then reversed.
\<close>

definition find_context :: "database \<Rightarrow> string \<Rightarrow> int \<Rightarrow> health_record list" where
  "find_context db pid t0 =
     rev (take 50 (sort_key (\<lambda>r. - recordedAt r)
       (filter (\<lambda>r. rec_patientId r = pid \<and> recordedAt r < t0) (healthRecords db))))"

section \<open>Deduplication keys\<close>

fun digits10 :: "nat \<Rightarrow> string" where
  "digits10 n = (if n < 10 then [''0123456789'' ! n]
                 else digits10 (n div 10) @ [''0123456789'' ! (n mod 10)])"

declare digits10.simps [simp del]

definition show_int :: "int \<Rightarrow> string" where
  "show_int i = (if i < 0 then CHR ''-'' # digits10 (nat (- i)) else digits10 (nat i))"

text \<open>\<open>new Date(t).setSeconds(0, 0)\<close>: the time with seconds and milliseconds cleared.\<close>

definition minute_floor :: "int \<Rightarrow> int" where
  "minute_floor t = t - t mod 60000"

definition anomalyKey :: "string \<Rightarrow> int \<Rightarrow> string" where
  "anomalyKey pid t = pid @ ''-'' @ show_int (minute_floor t)"

definition existingAnomalySet :: "anomaly list \<Rightarrow> string set" where
  "existingAnomalySet as = set (map (\<lambda>a. anomalyKey (an_patientId a) (detectedAt a)) as)"

section \<open>Grouping by patient\<close>

text \<open>
  \<open>Object.entries(recordsByPatient)\<close> lists the keys that are array indices first, in
  numeric order, then the other keys in the order of their first insertion.
\<close>

definition is_array_index :: "string \<Rightarrow> bool" where
  "is_array_index s =
     (s \<noteq> [] \<and> list_all (\<lambda>c. digit_of 10 c \<noteq> None) s \<and> (s = ''0'' \<or> take 1 s \<noteq> ''0'')
      \<and> radix_value 10 s < 2 ^ 32 - 1)"

definition first_occurrences :: "'a list \<Rightarrow> 'a list" where
  "first_occurrences xs = rev (remdups (rev xs))"

definition entries_order :: "string list \<Rightarrow> string list" where
  "entries_order ks =
     sort_key (radix_value 10) (filter is_array_index ks) @ filter (\<lambda>k. \<not> is_array_index k) ks"

definition recordsByPatient :: "health_record list \<Rightarrow> (string \<times> health_record list) list" where
  "recordsByPatient rs =
     map (\<lambda>pid. (pid, filter (\<lambda>r. rec_patientId r = pid) rs))
       (entries_order (first_occurrences (map rec_patientId rs)))"

section \<open>The retrospective run\<close>

record run_state =
  res :: results
  keys :: "string set"
  det :: detector
  db :: database

definition upd_summary ::
  "(patient_summary \<Rightarrow> patient_summary) \<Rightarrow> (string \<rightharpoonup> patient_summary) \<Rightarrow> string
     \<Rightarrow> (string \<rightharpoonup> patient_summary)" where
  "upd_summary f m pid = (case m pid of None \<Rightarrow> m | Some s \<Rightarrow> m(pid \<mapsto> f s))"

text \<open>The counters of a new anomaly.\<close>

definition count_new :: "results \<Rightarrow> string \<Rightarrow> severity \<Rightarrow> results" where
  "count_new r pid sev =
     (let r1 = r\<lparr>newAnomaliesDetected := newAnomaliesDetected r + 1,
                 patientsSummary := upd_summary (\<lambda>s. s\<lparr>newAnomalies := newAnomalies s + 1\<rparr>)
                                      (patientsSummary r) pid\<rparr>
      in if sev = SevCritical then
           r1\<lparr>criticalCount := criticalCount r1 + 1,
              patientsSummary := upd_summary (\<lambda>s. s\<lparr>criticalAnomalies := criticalAnomalies s + 1\<rparr>)
                                   (patientsSummary r1) pid\<rparr>
         else if sev = SevWarning then
           r1\<lparr>warningCount := warningCount r1 + 1,
              patientsSummary := upd_summary (\<lambda>s. s\<lparr>warningAnomalies := warningAnomalies s + 1\<rparr>)
                                   (patientsSummary r1) pid\<rparr>
         else r1)"

definition new_anomaly :: "string \<Rightarrow> int \<Rightarrow> detection \<Rightarrow> anomaly" where
  "new_anomaly pid t dn =
     \<lparr>an_patientId = pid, an_severity = d_severity dn, detectedAt = t, an_alerts = alerts dn,
      acknowledged = False, retrospective = True, anomalyScore = normalizedScore dn\<rparr>"

definition new_alert_logs :: "string \<Rightarrow> int \<Rightarrow> patient \<Rightarrow> detection \<Rightarrow> alert_log list" where
  "new_alert_logs pid t p dn =
     map (\<lambda>a. \<lparr>al_patientId = pid, al_type = atype a, al_category = acategory a,
               al_message = message a, al_value = avalue a, al_threshold = thresholds p,
               al_timestamp = t, al_retrospective = True\<rparr>) (alerts dn)"

definition save_error :: "string \<Rightarrow> int \<Rightarrow> string \<Rightarrow> err_piece list" where
  "save_error pid t msg =
     [ETxt ''Error saving anomaly for '', EStr pid, ETxt '' at '', EDate t, ETxt '': '', EStr msg]"

text \<open>
  The \<open>try\<close> block of one new anomaly: create the anomaly, insert its alert logs, add the
  key to the set. A rejected write leaves what was written before it and records the error.
\<close>

definition save_anomaly ::
  "faults \<Rightarrow> string \<Rightarrow> patient \<Rightarrow> int \<Rightarrow> detection \<Rightarrow> run_state \<Rightarrow> run_state" where
  "save_anomaly fl pid p t dn st =
     (case createFails fl pid t of
        Some msg \<Rightarrow> st\<lparr>res := (res st)\<lparr>errors := errors (res st) @ [save_error pid t msg]\<rparr>\<rparr>
      | None \<Rightarrow>
          let st1 = st\<lparr>db := (db st)\<lparr>anomalies := anomalies (db st) @ [new_anomaly pid t dn]\<rparr>\<rparr>;
              logs = new_alert_logs pid t p dn
          in if length logs > 0 then
               (case insertFails fl pid t of
                  Some msg \<Rightarrow> st1\<lparr>res := (res st1)\<lparr>errors := errors (res st1) @ [save_error pid t msg]\<rparr>\<rparr>
                | None \<Rightarrow>
                    st1\<lparr>db := (db st1)\<lparr>alertLogs := alertLogs (db st1) @ logs\<rparr>,
                        keys := insert (anomalyKey pid t) (keys st1)\<rparr>)
             else st1\<lparr>keys := insert (anomalyKey pid t) (keys st1)\<rparr>)"

text \<open>
  One iteration of the loop over a patient's records. The wall clock of the call to
  \<open>detectAnomalies\<close> is \<open>clock n\<close>, where \<open>n\<close> counts the records replayed before.
\<close>

definition process_record ::
  "(nat \<Rightarrow> nat) \<Rightarrow> faults \<Rightarrow> bool \<Rightarrow> string \<Rightarrow> patient \<Rightarrow> run_state \<Rightarrow> health_record \<Rightarrow> run_state" where
  "process_record clock fl upd pid p st r =
     (let n = processed (res st);
          st1 = st\<lparr>res := (res st)\<lparr>processed := n + 1\<rparr>\<rparr>;
          (dn, d') = detectAnomalies (clock n) (det st1) pid (rec_vitals r) p;
          st2 = st1\<lparr>det := d'\<rparr>
      in if isAnomaly dn then
           (if anomalyKey pid (recordedAt r) \<notin> keys st2 then
              (let st3 = st2\<lparr>res := count_new (res st2) pid (d_severity dn)\<rparr>
               in if upd then save_anomaly fl pid p (recordedAt r) dn st3 else st3)
            else st2)
         else st2)"

definition load_context :: "detector \<Rightarrow> database \<Rightarrow> string \<Rightarrow> health_record list \<Rightarrow> detector" where
  "load_context d dbs pid records =
     (case records of
        [] \<Rightarrow> d
      | r0 # _ \<Rightarrow> appendAll d pid (map rec_vitals (find_context dbs pid (recordedAt r0))))"

text \<open>One iteration of the loop over the groups (a group is never empty).\<close>

definition process_patient ::
  "(nat \<Rightarrow> nat) \<Rightarrow> faults \<Rightarrow> bool \<Rightarrow> (string \<rightharpoonup> patient) \<Rightarrow> run_state
     \<Rightarrow> string \<times> health_record list \<Rightarrow> run_state" where
  "process_patient clock fl upd pm st g =
     (let pid = fst g; records = snd g
      in case pm pid of
           None \<Rightarrow>
             st\<lparr>res := (res st)\<lparr>errors := errors (res st)
                        @ [[ETxt ''Patient '', EStr pid, ETxt '' not found in database'']]\<rparr>\<rparr>
         | Some p \<Rightarrow>
             let st1 = st\<lparr>res := (res st)\<lparr>patientsSummary := (patientsSummary (res st))(pid \<mapsto>
                           \<lparr>patientName = name p, recordsProcessed = length records,
                            newAnomalies = 0, criticalAnomalies = 0, warningAnomalies = 0\<rparr>)\<rparr>\<rparr>;
                 st2 = st1\<lparr>det := load_context (resetPatient (det st1) pid) (db st1) pid records\<rparr>;
                 st3 = foldl (process_record clock fl upd pid p) st2 records
             in st3\<lparr>det := resetPatient (det st3) pid\<rparr>)"

definition detectRetrospectiveAnomalies ::
  "(nat \<Rightarrow> nat) \<Rightarrow> faults \<Rightarrow> detector \<Rightarrow> database \<Rightarrow> options
     \<Rightarrow> (string + results) \<times> detector \<times> database" where
  "detectRetrospectiveAnomalies clock fl d dbs opts =
     (if \<not> hasHealthRecord d then (Inl ''HealthRecord model not injected'', d, dbs)
      else
        let ps = find_patients dbs opts
        in if length ps = 0 then (Inr empty_results, d, dbs)
           else
             let st0 = \<lparr>res = empty_results,
                        keys = existingAnomalySet (find_anomalies dbs opts),
                        det = d, db = dbs\<rparr>;
                 st = foldl (process_patient clock fl (updateDatabase opts) (patientMap ps)) st0
                        (recordsByPatient (find_records dbs opts))
             in (Inr (res st), det st, db st))"

section \<open>The request boundary\<close>

text \<open>
  \<open>router.post("/retrospective")\<close>. The body's fields are optional; a date field is a
  string. \<open>new Date(s)\<close> is a parameter: \<open>parseDate s\<close> is the time of the date, or
  \<open>None\<close> for an invalid date. \<open>if (startDate)\<close> skips null and the empty string.
\<close>

record request_body =
  b_patientId :: "string option"
  b_startDate :: "string option"
  b_endDate :: "string option"
  b_updateDatabase :: "bool option"

datatype response = Status400 string | Status200 results | Status500 string

definition truthy :: "string option \<Rightarrow> bool" where
  "truthy f = (case f of None \<Rightarrow> False | Some s \<Rightarrow> s \<noteq> [])"

definition parse_field :: "(string \<Rightarrow> int option) \<Rightarrow> string option \<Rightarrow> int option" where
  "parse_field parseDate f = (case f of None \<Rightarrow> None | Some s \<Rightarrow> parseDate s)"

definition post_retrospective ::
  "(string \<Rightarrow> int option) \<Rightarrow> (nat \<Rightarrow> nat) \<Rightarrow> faults \<Rightarrow> detector \<Rightarrow> database \<Rightarrow> request_body
     \<Rightarrow> response \<times> detector \<times> database" where
  "post_retrospective parseDate clock fl d dbs body =
     (if truthy (b_startDate body) \<and> parse_field parseDate (b_startDate body) = None then
        (Status400 ''Invalid startDate format'', d, dbs)
      else if truthy (b_endDate body) \<and> parse_field parseDate (b_endDate body) = None then
        (Status400 ''Invalid endDate format'', d, dbs)
      else
        let sd = (if truthy (b_startDate body) then parse_field parseDate (b_startDate body) else None);
            ed = (if truthy (b_endDate body) then parse_field parseDate (b_endDate body) else None)
        in if (case (sd, ed) of (Some s, Some e) \<Rightarrow> s > e | _ \<Rightarrow> False) then
             (Status400 ''startDate cannot be after endDate'', d, dbs)
           else
             (case detectRetrospectiveAnomalies clock fl d dbs
                     \<lparr>o_patientId = b_patientId body, startDate = sd, endDate = ed,
                      updateDatabase = (case b_updateDatabase body of None \<Rightarrow> True | Some b \<Rightarrow> b)\<rparr> of
                (Inl msg, d', dbs') \<Rightarrow> (Status500 msg, d', dbs')
              | (Inr r, d', dbs') \<Rightarrow> (Status200 r, d', dbs')))"

section \<open>The rule of the specification for the z-score\<close>


section \<open>Notions used in the statements about the retrospective run\<close>

text \<open>The detection of a record in a state of the run, and whether it counts as new.\<close>

definition rec_detection ::
  "(nat \<Rightarrow> nat) \<Rightarrow> string \<Rightarrow> patient \<Rightarrow> run_state \<Rightarrow> health_record \<Rightarrow> detection" where
  "rec_detection clock pid p st r =
     fst (detectAnomalies (clock (processed (res st))) (det st) pid (rec_vitals r) p)"

definition is_new ::
  "(nat \<Rightarrow> nat) \<Rightarrow> string \<Rightarrow> patient \<Rightarrow> run_state \<Rightarrow> health_record \<Rightarrow> bool" where
  "is_new clock pid p st r =
     (isAnomaly (rec_detection clock pid p st r) \<and> anomalyKey pid (recordedAt r) \<notin> keys st)"

text \<open>Every key of the set belongs to a persisted anomaly that the query of the run finds.\<close>

definition keys_persisted :: "options \<Rightarrow> run_state \<Rightarrow> bool" where
  "keys_persisted opts st = (keys st \<subseteq> existingAnomalySet (find_anomalies (db st) opts))"

text \<open>From the first state to the second nothing was counted as new and nothing was written.\<close>

definition quiet :: "run_state \<Rightarrow> run_state \<Rightarrow> bool" where
  "quiet s t = (newAnomaliesDetected (res t) = newAnomaliesDetected (res s)
     \<and> criticalCount (res t) = criticalCount (res s) \<and> warningCount (res t) = warningCount (res s)
     \<and> keys t = keys s \<and> db t = db s)"

text \<open>A detector that holds nothing but a window for one patient.\<close>

definition window_detector :: "string \<Rightarrow> vitals list option \<Rightarrow> detector" where
  "window_detector pid w = new_detector\<lparr>dataWindow := Map.empty(pid := w)\<rparr>"

text \<open>
  The replay of a patient's records seen through what a detection reads and what the
  deduplication tests: the count of records replayed so far (for the clock), the
  patient's window and the key set. The result lists the times of the records that a run
  which persists every new anomaly counts as new.
\<close>

fun replay_new ::
  "(nat \<Rightarrow> nat) \<Rightarrow> string \<Rightarrow> patient \<Rightarrow> nat \<Rightarrow> vitals list option \<Rightarrow> string set
     \<Rightarrow> health_record list \<Rightarrow> int list" where
  "replay_new clock pid p n w K [] = []"
| "replay_new clock pid p n w K (r # rs) =
     (if isAnomaly (fst (detectAnomalies (clock n) (window_detector pid w) pid (rec_vitals r) p))
         \<and> anomalyKey pid (recordedAt r) \<notin> K
      then recordedAt r
             # replay_new clock pid p (Suc n)
                 (dataWindow (addToWindow (window_detector pid w) pid (rec_vitals r)) pid)
                 (insert (anomalyKey pid (recordedAt r)) K) rs
      else replay_new clock pid p (Suc n)
             (dataWindow (addToWindow (window_detector pid w) pid (rec_vitals r)) pid) K rs)"

text \<open>The count of new anomalies that a run reports, if it returns results.\<close>

definition run_new :: "(string + results) \<times> detector \<times> database \<Rightarrow> nat option" where
  "run_new x = (case fst x of Inl _ \<Rightarrow> None | Inr r \<Rightarrow> Some (newAnomaliesDetected r))"

definition rejected :: "response \<Rightarrow> bool" where
  "rejected r = (case r of Status400 _ \<Rightarrow> True | _ \<Rightarrow> False)"

section \<open>Concrete data\<close>

text \<open>
  The first profile of \<open>config/patients.js\<close> and the normal sample of the unit tests
  (\<open>tests/anomalyDetector.test.js\<close>), used where a statement is evaluated.
\<close>

definition margaret :: patient where
  "margaret = \<lparr>patientId = ''P001'', name = ''Margaret Chen'', isActive = True,
     thresholds = \<lparr>hrCritical = (45, 130), bpCritical = (180, 90), spo2Critical = 92\<rparr>\<rparr>"

definition normalVitals :: vitals where
  "normalVitals = \<lparr>heartRate = 72, bloodPressure = ''140/88'', spo2 = 98, bodyTemperature = 36.8,
     motionLevel = 0.3, fallRiskScore = 10, timestamp = 0\<rparr>"

definition sample_at :: "nat \<Rightarrow> vitals" where
  "sample_at i = normalVitals\<lparr>timestamp := int i\<rparr>"


text \<open>Four samples with a heart rate of 73 followed by twenty-five with 70.\<close>

definition drift_window :: "vitals list" where
  "drift_window = replicate 4 (normalVitals\<lparr>heartRate := 73\<rparr>)
     @ replicate 25 (normalVitals\<lparr>heartRate := 70\<rparr>)"

text \<open>
  The detector of the route module, a request for everything, and a date parser that knows
  the two dates of the API documentation (as UTC midnights) and no other string.
\<close>

definition route_detector :: detector where
  "route_detector = setHealthRecordModel new_detector"

definition all_opts :: options where
  "all_opts = \<lparr>o_patientId = None, startDate = None, endDate = None, updateDatabase = True\<rparr>"

definition doc_dates :: "string \<Rightarrow> int option" where
  "doc_dates = map_of [(''2024-01-01'', 1704067200000), (''2024-12-31'', 1735603200000)]"

definition empty_start :: request_body where
  "empty_start = \<lparr>b_patientId = None, b_startDate = Some [], b_endDate = None,
                  b_updateDatabase = None\<rparr>"

text \<open>One patient with one record, a heart rate of 35.\<close>

definition brady_record :: health_record where
  "brady_record = \<lparr>rec_patientId = ''P001'', rec_vitals = normalVitals\<lparr>heartRate := 35\<rparr>\<rparr>"

definition brady_db :: database where
  "brady_db = \<lparr>patients = [margaret], healthRecords = [brady_record],
     anomalies = [], alertLogs = []\<rparr>"

text \<open>
  One patient with eight records five minutes apart, normal but for a motion level of 0.7
  and, in the first record, a heart rate of 35.
\<close>

definition walk_record :: "int \<Rightarrow> health_record" where
  "walk_record i = \<lparr>rec_patientId = ''P001'',
      rec_vitals = normalVitals\<lparr>heartRate := (if i = 0 then 35 else 72), motionLevel := 0.7,
                                timestamp := 300000 * i\<rparr>\<rparr>"

definition walk_recs :: "health_record list" where
  "walk_recs = [walk_record 0, walk_record 1, walk_record 2, walk_record 3,
                walk_record 4, walk_record 5, walk_record 6, walk_record 7]"

definition walk_db :: database where
  "walk_db = \<lparr>patients = [margaret], healthRecords = walk_recs, anomalies = [], alertLogs = []\<rparr>"

section \<open>Basic facts\<close>

lemmas parse_defs = systolic_of_def parseInt_def js_white_def digit_of_def radix_value_def

lemmas detect_defs = detectAnomalies_def collect_alerts_def collect_severity_def
  checkCriticalVitals_def hr_alerts_def bp_alerts_def spo2_alerts_def temp_alerts_def
  fall_alerts_def sev_after_critical_def sev_after_fall_def sev_after_stat_def
  sev_after_behavioral_def has_critical_def calculateAnomalyScore_def Let_def

lemma systolic_normal: "systolic_of ''140/88'' = Some 140"
  by (simp add: parse_defs)

lemma has_critical_iff: "has_critical as = (\<exists>a\<in>set as. atype a = Critical)"
  by (simp add: has_critical_def list_ex_iff)

lemma detect_alerts [simp]:
  "alerts (fst (detectAnomalies h d pid v p)) = collect_alerts h d pid v p"
  by (simp add: detectAnomalies_def Let_def)

lemma detect_severity [simp]:
  "d_severity (fst (detectAnomalies h d pid v p)) = collect_severity h d pid v p"
  by (simp add: detectAnomalies_def Let_def)

lemma detect_isAnomaly [simp]:
  "isAnomaly (fst (detectAnomalies h d pid v p)) = (collect_alerts h d pid v p \<noteq> [])"
  by (simp add: detectAnomalies_def Let_def)

lemma detect_score [simp]:
  "normalizedScore (fst (detectAnomalies h d pid v p))
     = calculateAnomalyScore (collect_alerts h d pid v p)"
  by (simp add: detectAnomalies_def Let_def)

lemma detect_window:
  "dataWindow (snd (detectAnomalies h d pid v p)) pid = dataWindow (addToWindow d pid v) pid"
  by (simp add: detectAnomalies_def Let_def push_history_def addToWindow_def)

section \<open>Rounding to double precision\<close>

lemma round_even_int: "round_even (of_int i) = i"
  by (simp add: round_even_def)

lemma ulp_pos: "ulp x > 0"
  by (simp add: ulp_def)

lemma round_even_error: "\<bar>of_int (round_even y) - y\<bar> \<le> 1 / 2"
  unfolding round_even_def by (auto simp: abs_if) linarith+

lemma two_powr_floor_log: "x \<noteq> 0 \<Longrightarrow> 2 powr of_int \<lfloor>log 2 \<bar>x\<bar>\<rfloor> \<le> \<bar>x\<bar>"
proof -
  assume "x \<noteq> 0"
  then have p: "\<bar>x\<bar> > 0" by simp
  have "of_int \<lfloor>log 2 \<bar>x\<bar>\<rfloor> \<le> log 2 \<bar>x\<bar>" by simp
  then have "2 powr of_int \<lfloor>log 2 \<bar>x\<bar>\<rfloor> \<le> 2 powr log 2 \<bar>x\<bar>"
    by (simp only: powr_le_cancel_iff [of 2] one_less_numeral_iff semiring_norm)
  also have "\<dots> = \<bar>x\<bar>" using p by simp
  finally show ?thesis .
qed

lemma ulp_split: "ulp x = 2 powr of_int \<lfloor>log 2 \<bar>x\<bar>\<rfloor> * 2 powr (- 52)"
proof -
  have "of_int (\<lfloor>log 2 \<bar>x\<bar>\<rfloor> - 52) = (of_int \<lfloor>log 2 \<bar>x\<bar>\<rfloor> :: real) + (- 52)" by simp
  then show ?thesis unfolding ulp_def by (simp only: powr_add)
qed

lemma ulp_le: "x \<noteq> 0 \<Longrightarrow> ulp x \<le> \<bar>x\<bar> * 2 powr (- 52)"
  unfolding ulp_split using two_powr_floor_log [of x] by (intro mult_right_mono) simp_all

lemma dbl_error: "\<bar>dbl x - x\<bar> \<le> \<bar>x\<bar> * 2 powr (- 52) / 2"
proof (cases "x = 0")
  case True
  then show ?thesis by (simp add: dbl_def)
next
  case False
  let ?u = "ulp x"
  have u: "?u > 0" by (rule ulp_pos)
  have "dbl x - x = ?u * (of_int (round_even (x / ?u)) - x / ?u)"
    using False u by (simp add: dbl_def algebra_simps)
  then have "\<bar>dbl x - x\<bar> = ?u * \<bar>of_int (round_even (x / ?u)) - x / ?u\<bar>"
    using u by (simp add: abs_mult)
  also have "\<dots> \<le> ?u * (1 / 2)"
    using u round_even_error [of "x / ?u"] by (intro mult_left_mono) simp_all
  also have "\<dots> \<le> (\<bar>x\<bar> * 2 powr (- 52)) * (1 / 2)"
    using ulp_le [OF False] by (intro mult_right_mono) simp_all
  finally show ?thesis by simp
qed

lemma dbl_exact:
  assumes x: "x = of_int m * 2 powr of_int k" and m: "\<bar>m\<bar> < 2 ^ 53"
  shows "dbl x = x"
proof (cases "x = 0")
  case True
  then show ?thesis by (simp add: dbl_def)
next
  case False
  define e where "e = \<lfloor>log 2 \<bar>x\<bar>\<rfloor>"
  have lo: "2 powr of_int e \<le> \<bar>x\<bar>"
    unfolding e_def by (rule two_powr_floor_log [OF False])
  have "(of_int \<bar>m\<bar> :: real) < of_int (2 ^ 53)" using m by (simp only: of_int_less_iff)
  then have mm: "\<bar>of_int m :: real\<bar> < 2 powr 53" by (simp add: powr_realpow [symmetric])
  have "\<bar>x\<bar> = \<bar>of_int m\<bar> * 2 powr of_int k" by (simp add: x abs_mult)
  also have "\<dots> < 2 powr 53 * 2 powr of_int k"
    using mm by (intro mult_strict_right_mono) simp_all
  also have "\<dots> = 2 powr (53 + of_int k)" by (simp only: powr_add)
  finally have up: "\<bar>x\<bar> < 2 powr (53 + real_of_int k)" .
  from lo up have "2 powr of_int e < 2 powr (53 + real_of_int k)" by (rule le_less_trans)
  then have "of_int e < 53 + real_of_int k"
    by (simp only: powr_less_cancel_iff [of 2] one_less_numeral_iff semiring_norm)
  then have ek: "e - 52 \<le> k" by linarith
  define j where "j = nat (k - (e - 52))"
  have jk: "real_of_int k = of_int (e - 52) + real j" using ek by (simp add: j_def)
  have u: "ulp x = 2 powr of_int (e - 52)" by (simp add: ulp_def e_def)
  have "x / ulp x = x / 2 powr of_int (e - 52)" by (simp only: u)
  also have "\<dots> = of_int m * 2 powr (real j)"
    unfolding x jk by (simp add: powr_add)
  also have "\<dots> = of_int (m * 2 ^ j)" by (simp add: powr_realpow)
  finally have q: "x / ulp x = of_int (m * 2 ^ j)" .
  have "dbl x = ulp x * of_int (m * 2 ^ j)"
    using False by (simp only: dbl_def q round_even_int if_False)
  also have "\<dots> = ulp x * (x / ulp x)" by (simp only: q)
  also have "\<dots> = x" using ulp_pos [of x] by simp
  finally show ?thesis .
qed

lemma dbl_of_int: "\<bar>m\<bar> < 2 ^ 53 \<Longrightarrow> dbl (of_int m) = of_int m"
  using dbl_exact [of "of_int m" m 0] by simp

lemma dbl_halves: "\<bar>m\<bar> < 2 ^ 53 \<Longrightarrow> dbl (of_int m / 2) = of_int m / 2"
proof -
  have "(2::real) powr (- 1) = 1 / 2"
    by (simp add: powr_minus_divide)
  then show "\<bar>m\<bar> < 2 ^ 53 \<Longrightarrow> dbl (of_int m / 2) = of_int m / 2"
    using dbl_exact [of "of_int m / 2" m "-1"] by simp
qed

lemma dbl_quarters: "\<bar>m\<bar> < 2 ^ 53 \<Longrightarrow> dbl (of_int m / 4) = of_int m / 4"
proof -
  have "(2::real) powr (- 2) = 1 / 4"
    by (simp add: powr_minus_divide)
  then show "\<bar>m\<bar> < 2 ^ 53 \<Longrightarrow> dbl (of_int m / 4) = of_int m / 4"
    using dbl_exact [of "of_int m / 4" m "-2"] by simp
qed

lemma dbl_values:
  "dbl 0 = 0" "dbl 1 = 1" "dbl (1 / 2) = 1 / 2" "dbl (1 / 4) = 1 / 4"
  "dbl (- (1 / 2)) = - (1 / 2)"
  "numeral n < (2::int) ^ 53 \<Longrightarrow> dbl (numeral n) = numeral n"
  "numeral n < (2::int) ^ 53 \<Longrightarrow> dbl (- numeral n) = - numeral n"
  "numeral n < (2::int) ^ 53 \<Longrightarrow> dbl (numeral n / 2) = numeral n / 2"
  "numeral n < (2::int) ^ 53 \<Longrightarrow> dbl (- (numeral n / 2)) = - (numeral n / 2)"
  "numeral n < (2::int) ^ 53 \<Longrightarrow> dbl (numeral n / 4) = numeral n / 4"
  using dbl_of_int [of 0] dbl_of_int [of 1] dbl_halves [of 1] dbl_quarters [of 1] dbl_halves [of "-1"]
    dbl_of_int [of "numeral n"] dbl_of_int [of "- numeral n"] dbl_halves [of "numeral n"]
    dbl_halves [of "- numeral n"] dbl_quarters [of "numeral n"]
  by simp_all






lemma dbl_zero: "dbl 0 = 0"
  by (simp add: dbl_def)




lemma dbl_Ints:
  assumes "x \<in> \<int>" and "\<bar>x\<bar> < 2 ^ 53"
  shows "dbl x = x"
proof -
  from assms(1) obtain m where m: "x = of_int m" by (rule Ints_cases)
  have "\<bar>real_of_int m\<bar> < of_int (2 ^ 53)" using assms(2) m by simp
  then have "\<bar>m\<bar> < 2 ^ 53" by (simp only: of_int_abs [symmetric] of_int_less_iff)
  then show ?thesis unfolding m by (rule dbl_of_int)
qed

text \<open>Sums of integers that stay below \<open>2 ^ 53\<close> are exact.\<close>

lemma foldl_add_Ints:
  "\<forall>x\<in>set xs. x \<in> \<int> \<and> \<bar>x\<bar> \<le> B \<Longrightarrow> a \<in> \<int> \<Longrightarrow> \<bar>a\<bar> + real (length xs) * B < 2 ^ 53 \<Longrightarrow>
     foldl (\<lambda>a b. dbl (a + b)) a xs = a + sum_list xs"
proof (induction xs arbitrary: a)
  case Nil
  then show ?case by simp
next
  case (Cons x xs)
  have x: "x \<in> \<int>" "\<bar>x\<bar> \<le> B" using Cons.prems(1) by simp_all
  have B: "0 \<le> B" using x(2) by simp
  have i: "a + x \<in> \<int>" using Cons.prems(2) x(1) by simp
  have b: "\<bar>a + x\<bar> + real (length xs) * B < 2 ^ 53"
    using Cons.prems(3) x(2) by (simp add: algebra_simps)
  have "0 \<le> real (length xs) * B" using B by simp
  then have "\<bar>a + x\<bar> < 2 ^ 53" using b by linarith
  then have e: "dbl (a + x) = a + x" using i by (intro dbl_Ints)
  have "foldl (\<lambda>a b. dbl (a + b)) (a + x) xs = (a + x) + sum_list xs"
    using Cons.prems(1) i b by (intro Cons.IH) simp_all
  then show ?case by (simp add: e)
qed

lemma reduce_add_Ints:
  assumes "\<forall>x\<in>set xs. x \<in> \<int> \<and> \<bar>x\<bar> \<le> B" and "real (length xs) * B < 2 ^ 53"
  shows "reduce_add xs = sum_list xs"
proof (cases xs)
  case Nil
  then show ?thesis by (simp add: reduce_add_def)
next
  case (Cons x rest)
  have "foldl (\<lambda>a b. dbl (a + b)) x rest = x + sum_list rest"
    using assms unfolding Cons by (intro foldl_add_Ints [where B = B]) (auto simp: algebra_simps)
  then show ?thesis by (simp add: reduce_add_def Cons)
qed

lemma round_even_near:
  assumes "\<bar>y - of_int m\<bar> < 1 / 2"
  shows "round_even y = m"
proof -
  have "\<bar>real_of_int (round_even y) - of_int m\<bar> < 1"
    using round_even_error [of y] assms by linarith
  then have "\<bar>real_of_int (round_even y - m)\<bar> < 1" by simp
  then have "\<bar>round_even y - m\<bar> < 1" by linarith
  then show ?thesis by simp
qed

lemma ulp_scaled:
  assumes "2 ^ 52 \<le> \<bar>x\<bar> * 2 ^ j" and "\<bar>x\<bar> * 2 ^ j < 2 ^ 53"
  shows "ulp x = 1 / 2 ^ j"
proof -
  have p: "0 < \<bar>x\<bar>"
  proof (rule ccontr)
    assume "\<not> 0 < \<bar>x\<bar>"
    then have "x = 0" by simp
    then show False using assms(1) by simp
  qed
  have j: "(2::real) powr (- real j) = 1 / 2 ^ j"
    by (simp add: powr_minus_divide powr_realpow)
  have lo: "2 powr (52 - real j) \<le> \<bar>x\<bar>"
  proof -
    have "(2::real) powr (52 - real j) = 2 ^ 52 * (1 / 2 ^ j)"
      using j by (simp add: powr_diff powr_realpow powr_minus_divide)
    also have "\<dots> \<le> (\<bar>x\<bar> * 2 ^ j) * (1 / 2 ^ j)"
      using assms(1) by (intro mult_right_mono) simp_all
    also have "\<dots> = \<bar>x\<bar>" by simp
    finally show ?thesis .
  qed
  have hi: "\<bar>x\<bar> < 2 powr (53 - real j)"
  proof -
    have "\<bar>x\<bar> = (\<bar>x\<bar> * 2 ^ j) * (1 / 2 ^ j)" by simp
    also have "\<dots> < 2 ^ 53 * (1 / 2 ^ j)"
      using assms(2) by (intro mult_strict_right_mono) simp_all
    also have "\<dots> = 2 powr (53 - real j)"
      using j by (simp add: powr_diff powr_realpow powr_minus_divide)
    finally show ?thesis .
  qed
  have k: "real_of_int (52 - int j) = 52 - real j" "real_of_int (52 - int j + 1) = 53 - real j"
    by simp_all
  have "(\<lfloor>log 2 \<bar>x\<bar>\<rfloor> = 52 - int j)
      = (2 powr of_int (52 - int j) \<le> \<bar>x\<bar> \<and> \<bar>x\<bar> < 2 powr of_int (52 - int j + 1))"
    using p by (intro floor_log_eq_powr_iff) simp_all
  then have "\<lfloor>log 2 \<bar>x\<bar>\<rfloor> = 52 - int j"
    using lo hi by (simp only: k simp_thms)
  then have "ulp x = 2 powr (- real j)" by (simp add: ulp_def)
  then show ?thesis by (simp only: j)
qed

text \<open>
  The value of \<open>dbl\<close> at a number whose significand, scaled to 53 bits, is nearer to
  \<open>m\<close> than to any other integer.
\<close>

lemma dbl_near:
  assumes "2 ^ 52 \<le> \<bar>x\<bar> * 2 ^ j" and "\<bar>x\<bar> * 2 ^ j < 2 ^ 53"
    and "\<bar>x * 2 ^ j - of_int m\<bar> < 1 / 2"
  shows "dbl x = of_int m / 2 ^ j"
proof -
  have x: "x \<noteq> 0" using assms(1) by auto
  have u: "ulp x = 1 / 2 ^ j" by (rule ulp_scaled [OF assms(1,2)])
  have "round_even (x / ulp x) = m"
    using assms(3) by (intro round_even_near) (simp add: u)
  then show ?thesis using x by (simp add: dbl_def u)
qed

lemma dbl_sqrt_near:
  assumes "(2 ^ 52) ^ 2 \<le> y * 4 ^ j" and "y * 4 ^ j < (2 ^ 53) ^ 2"
    and "(of_int m - 1 / 2) ^ 2 < y * 4 ^ j" and "y * 4 ^ j < (of_int m + 1 / 2) ^ 2"
    and "0 < m"
  shows "dbl (sqrt y) = of_int m / 2 ^ j"
proof -
  have s: "sqrt y * 2 ^ j = sqrt (y * 4 ^ j)"
  proof -
    have "(4::real) ^ j = (2 * 2) ^ j" by simp
    then have "(4::real) ^ j = (2 ^ j) ^ 2" by (simp only: power_mult_distrib power2_eq_square)
    then show ?thesis by (simp add: real_sqrt_mult)
  qed
  have "(0::real) \<le> (2 ^ 52) ^ 2" by simp
  then have "0 \<le> y * 4 ^ j" using assms(1) by linarith
  moreover have "(0::real) < 4 ^ j" by simp
  ultimately have "0 \<le> y" by (simp only: zero_le_mult_iff) linarith
  then have ab: "\<bar>sqrt y\<bar> = sqrt y" by simp
  have a: "2 ^ 52 \<le> sqrt (y * 4 ^ j)"
    using assms(1) by (intro real_le_rsqrt)
  have b: "sqrt (y * 4 ^ j) < 2 ^ 53"
    using assms(2) by (intro real_less_lsqrt) simp_all
  have m: "(1::real) \<le> of_int m" using assms(5) by simp
  have c: "of_int m - 1 / 2 < sqrt (y * 4 ^ j)"
    using assms(3) m by (intro real_less_rsqrt)
  have d: "sqrt (y * 4 ^ j) < of_int m + 1 / 2"
    using assms(4) m by (intro real_less_lsqrt) simp_all
  show ?thesis
  proof (rule dbl_near)
    show "2 ^ 52 \<le> \<bar>sqrt y\<bar> * 2 ^ j" unfolding ab s by (rule a)
    show "\<bar>sqrt y\<bar> * 2 ^ j < 2 ^ 53" unfolding ab s by (rule b)
    show "\<bar>sqrt y * 2 ^ j - of_int m\<bar> < 1 / 2" using c d unfolding s by linarith
  qed
qed

section \<open>The severity of a result\<close>

text \<open>
  C1. The claim: the severity of a result is critical if an alert is critical, else
  warning if there is an alert, else normal. The source sets warning only after the
  statistical stage; a warning alert of the threshold stage (fever) or of the behavioural
  stage leaves the severity as it was. On a fresh detector, the normal sample of the tests
  with a temperature of 38.8 yields one warning alert (fever), \<open>isAnomaly\<close> true, a score
  of 10, and the severity normal.
\<close>

theorem fever_only_severity_normal:
  "fst (detectAnomalies 12 new_detector ''P001'' (normalVitals\<lparr>bodyTemperature := 38.8\<rparr>) margaret)
   = \<lparr>isAnomaly = True, d_severity = SevNormal,
      alerts = [\<lparr>atype = Warning, acategory = fever,
          message = [Uni 0x1F321, Uni 0xFE0F, Txt '' FEVER: Temperature '',
                     Num 38.8, Uni 0xB0, Txt ''C''],
          avalue = 38.8\<rparr>], normalizedScore = 10\<rparr>"
  by (simp add: detect_defs checkStatisticalAnomalies_def checkBehavioralChanges_def
       new_detector_def margaret_def normalVitals_def systolic_normal)

section \<open>Bradycardia\<close>

lemma sev_critical_kept:
  "sev_after_fall v SevCritical = SevCritical"
  "sev_after_stat as SevCritical = SevCritical"
  "sev_after_behavioral as SevCritical = SevCritical"
  by (simp_all add: sev_after_fall_def sev_after_stat_def sev_after_behavioral_def)

text \<open>
  C4. A heart rate strictly below the lower critical limit of the profile gives a
  bradycardia alert of type critical and the overall severity critical, whatever the other
  vitals, the window, the history and the hour are.
\<close>

theorem bradycardia_critical:
  assumes "heartRate v < fst (hrCritical (thresholds p))"
  shows "(\<exists>a \<in> set (alerts (fst (detectAnomalies h d pid v p))).
            acategory a = bradycardia \<and> atype a = Critical \<and> avalue a = heartRate v)
         \<and> d_severity (fst (detectAnomalies h d pid v p)) = SevCritical"
proof -
  let ?b = "\<lparr>atype = Critical, acategory = bradycardia,
          message = [Uni 0x26A0, Uni 0xFE0F, Txt '' BRADYCARDIA: HR '', Num (heartRate v),
                     Txt '' bpm (< '', Num (fst (hrCritical (thresholds p))), Txt '')''],
          avalue = heartRate v\<rparr>"
  have hr: "hr_alerts v (thresholds p) = [?b]"
    using assms by (simp add: hr_alerts_def)
  have mem: "?b \<in> set (collect_alerts h d pid v p)"
    by (simp add: collect_alerts_def checkCriticalVitals_def hr)
  have "has_critical (checkCriticalVitals v p)"
    by (simp add: has_critical_iff checkCriticalVitals_def hr)
  then have "sev_after_critical (checkCriticalVitals v p) = SevCritical"
    by (simp add: sev_after_critical_def)
  then have sev: "collect_severity h d pid v p = SevCritical"
    by (simp add: collect_severity_def sev_critical_kept)
  from mem have "\<exists>a \<in> set (collect_alerts h d pid v p).
            acategory a = bradycardia \<and> atype a = Critical \<and> avalue a = heartRate v"
    by (intro bexI [of _ ?b]) simp_all
  with sev show ?thesis by simp
qed

theorem bradycardia_critical_witness:
  "heartRate (normalVitals\<lparr>heartRate := 35\<rparr>) < fst (hrCritical (thresholds margaret))
   \<and> (\<exists>a \<in> set (alerts (fst (detectAnomalies 12 new_detector ''P001''
                                  (normalVitals\<lparr>heartRate := 35\<rparr>) margaret))).
            acategory a = bradycardia \<and> atype a = Critical \<and> avalue a = 35)
   \<and> d_severity (fst (detectAnomalies 12 new_detector ''P001''
                        (normalVitals\<lparr>heartRate := 35\<rparr>) margaret)) = SevCritical"
proof -
  have h: "heartRate (normalVitals\<lparr>heartRate := 35\<rparr>) < fst (hrCritical (thresholds margaret))"
    by (simp add: normalVitals_def margaret_def)
  show ?thesis
    using h bradycardia_critical [OF h, of 12 new_detector "''P001''"] by simp
qed

section \<open>The rolling window is a queue of 288\<close>

lemma addToWindow_window:
  "dataWindow (addToWindow d pid v) pid =
     Some (if length (window_of d pid) \<ge> 288 then tl (window_of d pid @ [v])
           else window_of d pid @ [v])"
  by (simp add: addToWindow_def window_of_def Let_def)

lemma step_last_n:
  "length w \<le> 288 \<Longrightarrow>
     (if length w \<ge> 288 then tl (w @ [v]) else w @ [v]) = last_n 288 (w @ [v])"
  by (cases w) (auto simp: last_n_def)

lemma last_n_snoc: "last_n n (last_n n xs @ [v]) = last_n n (xs @ [v])"
proof (cases "length xs \<le> n")
  case True
  then show ?thesis by (simp add: last_n_def)
next
  case False
  then have "Suc (length xs) - (length xs - n + n) + (length xs - n) = Suc (length xs) - n"
    by arith
  then show ?thesis using False by (simp add: last_n_def)
qed

lemma length_last_n: "length (last_n n xs) = min n (length xs)"
  by (auto simp: last_n_def)

lemma window_of_addToWindow:
  "length (window_of d pid) \<le> 288 \<Longrightarrow>
     window_of (addToWindow d pid v) pid = last_n 288 (window_of d pid @ [v])"
  using step_last_n [of "window_of d pid" v]
  by (simp add: window_of_def [of "addToWindow d pid v"] addToWindow_window)

lemma appendAll_snoc: "appendAll d pid (vs @ [v]) = addToWindow (appendAll d pid vs) pid v"
  by (simp add: appendAll_def)

lemma window_of_appendAll:
  "length (window_of d pid) \<le> 288 \<Longrightarrow>
     window_of (appendAll d pid vs) pid = last_n 288 (window_of d pid @ vs)"
proof (induction vs rule: rev_induct)
  case Nil
  then show ?case by (simp add: appendAll_def last_n_def)
next
  case (snoc v vs)
  have len: "length (window_of (appendAll d pid vs) pid) \<le> 288"
    using snoc by (simp add: length_last_n)
  have "window_of (appendAll d pid (vs @ [v])) pid
          = last_n 288 (window_of (appendAll d pid vs) pid @ [v])"
    unfolding appendAll_snoc by (rule window_of_addToWindow [OF len])
  also have "\<dots> = last_n 288 (last_n 288 (window_of d pid @ vs) @ [v])"
    using snoc by simp
  also have "\<dots> = last_n 288 ((window_of d pid @ vs) @ [v])"
    by (rule last_n_snoc)
  finally show ?case by simp
qed

lemma appendAll_defined:
  "vs \<noteq> [] \<Longrightarrow> dataWindow (appendAll d pid vs) pid = Some (window_of (appendAll d pid vs) pid)"
proof (induction vs rule: rev_induct)
  case Nil
  then show ?case by simp
next
  case (snoc v vs)
  show ?case unfolding appendAll_snoc
    by (simp add: window_of_def [of "addToWindow _ _ _"] addToWindow_window)
qed

lemma inj_sample_at: "inj sample_at"
  by (rule injI) (simp add: sample_at_def normalVitals_def)

text \<open>
  C5. An append to a window of at most 288 entries leaves the last 288 of the old entries
  and the new one, so at most 288, and on a full window that is the window without its
  oldest entry, followed by the new one. After 289 appends for a patient that had no
  window, the window is the list of the samples without the first, in order: 288 entries,
  and the first sample is not among them when the samples differ from one another.
\<close>

theorem window_fifo_capacity:
  "(length (window_of d pid) \<le> 288 \<longrightarrow>
      window_of (addToWindow d pid v) pid = last_n 288 (window_of d pid @ [v])
      \<and> length (window_of (addToWindow d pid v) pid) \<le> 288
      \<and> (length (window_of d pid) = 288 \<longrightarrow>
            window_of (addToWindow d pid v) pid = tl (window_of d pid) @ [v]))
   \<and> (dataWindow d pid = None \<and> length vs = 289 \<longrightarrow>
        dataWindow (appendAll d pid vs) pid = Some (tl vs)
        \<and> length (tl vs) = 288
        \<and> (distinct vs \<longrightarrow> hd vs \<notin> set (tl vs)))"
proof -
  have one: "window_of (addToWindow d pid v) pid = last_n 288 (window_of d pid @ [v])
      \<and> length (window_of (addToWindow d pid v) pid) \<le> 288
      \<and> (length (window_of d pid) = 288 \<longrightarrow>
            window_of (addToWindow d pid v) pid = tl (window_of d pid) @ [v])"
    if le: "length (window_of d pid) \<le> 288"
  proof -
    have eq: "window_of (addToWindow d pid v) pid = last_n 288 (window_of d pid @ [v])"
      by (rule window_of_addToWindow [OF le])
    have "length (window_of (addToWindow d pid v) pid) \<le> 288"
      unfolding eq by (simp add: length_last_n)
    moreover have "window_of (addToWindow d pid v) pid = tl (window_of d pid) @ [v]"
      if "length (window_of d pid) = 288"
      using that unfolding eq by (cases "window_of d pid") (auto simp: last_n_def)
    ultimately show ?thesis using eq by blast
  qed
  have many: "dataWindow (appendAll d pid vs) pid = Some (tl vs)
        \<and> length (tl vs) = 288 \<and> (distinct vs \<longrightarrow> hd vs \<notin> set (tl vs))"
    if none: "dataWindow d pid = None" and len: "length vs = 289"
  proof -
    have w0: "window_of d pid = []" using none by (simp add: window_of_def)
    have ne: "vs \<noteq> []" using len by auto
    have "window_of (appendAll d pid vs) pid = last_n 288 vs"
      using window_of_appendAll [of d pid vs] w0 by simp
    also have "\<dots> = tl vs" using len by (cases vs) (auto simp: last_n_def)
    finally have "dataWindow (appendAll d pid vs) pid = Some (tl vs)"
      using appendAll_defined [OF ne, of d pid] by simp
    moreover have "length (tl vs) = 288" using len by simp
    moreover have "distinct vs \<longrightarrow> hd vs \<notin> set (tl vs)" using ne by (cases vs) auto
    ultimately show ?thesis by blast
  qed
  from one many show ?thesis by blast
qed

theorem window_fifo_capacity_witness:
  "length (window_of new_detector ''P001'') \<le> 288
   \<and> window_of (addToWindow new_detector ''P001'' (sample_at 0)) ''P001'' = [sample_at 0]
   \<and> dataWindow new_detector ''P001'' = None
   \<and> length (map sample_at [0..<289]) = 289
   \<and> distinct (map sample_at [0..<289])
   \<and> dataWindow (appendAll new_detector ''P001'' (map sample_at [0..<289])) ''P001''
        = Some (map sample_at [1..<289])
   \<and> sample_at 0 \<notin> set (map sample_at [1..<289])"
proof -
  have w0: "window_of new_detector ''P001'' = []" by (simp add: window_of_def new_detector_def)
  have n0: "dataWindow new_detector ''P001'' = None" by (simp add: new_detector_def)
  have l: "length (map sample_at [0..<289]) = 289" by simp
  have dis: "distinct (map sample_at [0..<289])"
    by (simp add: distinct_map inj_on_subset [OF inj_sample_at])
  have t: "tl (map sample_at [0..<289]) = map sample_at [1..<289]"
    by (simp add: upt_conv_Cons [of 0 289])
  have h: "hd (map sample_at [0..<289]) = sample_at 0"
    by (simp add: upt_conv_Cons [of 0 289])
  show ?thesis
    using window_fifo_capacity [of new_detector "''P001''" "sample_at 0" "map sample_at [0..<289]"]
      w0 n0 l dis t h
    by (simp add: last_n_def)
qed

section \<open>Fall detection\<close>

lemma no_fall_critical: "filter (\<lambda>a. acategory a = fall_detected) (checkCriticalVitals v p) = []"
  by (simp add: checkCriticalVitals_def hr_alerts_def bp_alerts_def spo2_alerts_def temp_alerts_def
        split: option.splits)

lemma no_fall_stat:
  "filter (\<lambda>a. acategory a = fall_detected) (checkStatisticalAnomalies d pid v) = []"
  by (simp add: checkStatisticalAnomalies_def split: option.splits)

lemma no_fall_behav:
  "filter (\<lambda>a. acategory a = fall_detected) (checkBehavioralChanges h d pid v) = []"
  by (simp add: checkBehavioralChanges_def split: option.splits)

lemma fall_filter:
  "filter (\<lambda>a. acategory a = fall_detected) (collect_alerts h d pid v p) = fall_alerts pid v"
  by (simp add: collect_alerts_def no_fall_critical no_fall_stat no_fall_behav fall_alerts_def)

text \<open>
  C7. With a fall risk score above 80 the alerts of the result hold exactly one alert of
  category \<open>fall_detected\<close>; it is critical and its message interpolates the patient id and
  the score. With a score of at most 80 there is none. Nothing else is assumed about the
  sample, the profile, the window or the hour.
\<close>

theorem fall_detected_exactly_one:
  "(fallRiskScore v > 80 \<longrightarrow>
      (\<exists>a. filter (\<lambda>a. acategory a = fall_detected) (alerts (fst (detectAnomalies h d pid v p))) = [a]
           \<and> atype a = Critical \<and> Str pid \<in> set (message a)
           \<and> Num (fallRiskScore v) \<in> set (message a) \<and> avalue a = fallRiskScore v))
   \<and> (fallRiskScore v \<le> 80 \<longrightarrow>
      filter (\<lambda>a. acategory a = fall_detected) (alerts (fst (detectAnomalies h d pid v p))) = [])"
  by (simp add: fall_filter fall_alerts_def)

theorem fall_detected_exactly_one_witness:
  "fallRiskScore (normalVitals\<lparr>fallRiskScore := 95\<rparr>) > 80
   \<and> (\<exists>a. filter (\<lambda>a. acategory a = fall_detected)
            (alerts (fst (detectAnomalies 12 new_detector ''P002''
                            (normalVitals\<lparr>fallRiskScore := 95\<rparr>) margaret))) = [a]
           \<and> atype a = Critical \<and> Str ''P002'' \<in> set (message a) \<and> Num 95 \<in> set (message a))
   \<and> fallRiskScore normalVitals \<le> 80
   \<and> filter (\<lambda>a. acategory a = fall_detected)
        (alerts (fst (detectAnomalies 12 new_detector ''P002'' normalVitals margaret))) = []"
proof -
  have h1: "fallRiskScore (normalVitals\<lparr>fallRiskScore := 95\<rparr>) > 80"
    by (simp add: normalVitals_def)
  have h2: "fallRiskScore normalVitals \<le> 80" by (simp add: normalVitals_def)
  show ?thesis
    using h1 h2
      fall_detected_exactly_one [of "normalVitals\<lparr>fallRiskScore := 95\<rparr>" 12 new_detector "''P002''" margaret]
      fall_detected_exactly_one [of normalVitals 12 new_detector "''P002''" margaret]
    by auto
qed

section \<open>The anomaly score\<close>

lemma score_formula:
  "calculateAnomalyScore as =
     min 100 (length (filter (\<lambda>a. atype a = Critical) as) * 30
              + length (filter (\<lambda>a. atype a = Warning) as) * 10)"
  by (cases as) (simp_all add: calculateAnomalyScore_def)

lemma score_pos: "as \<noteq> [] \<Longrightarrow> calculateAnomalyScore as \<ge> 10"
proof -
  assume ne: "as \<noteq> []"
  have "length (filter (\<lambda>a. atype a = Critical) as)
          + length (filter (\<lambda>a. atype a = Warning) as) = length as"
  proof (induction as)
    case Nil
    show ?case by simp
  next
    case (Cons a as)
    then show ?case by (cases "atype a") auto
  qed
  moreover have "length as > 0" using ne by simp
  ultimately have "length (filter (\<lambda>a. atype a = Critical) as) * 30
      + length (filter (\<lambda>a. atype a = Warning) as) * 10 \<ge> 10" by arith
  then show ?thesis unfolding score_formula by simp
qed

text \<open>
  C8. The score of a list of alerts is the minimum of 100 and thirty times the count of
  critical alerts plus ten times the count of warning alerts. The score of the empty list
  is 0, no score exceeds 100, and a list with at least as many critical and at least as
  many warning alerts as another scores at least as much.
\<close>

theorem score_min_monotone:
  "calculateAnomalyScore as =
     min 100 (length (filter (\<lambda>a. atype a = Critical) as) * 30
              + length (filter (\<lambda>a. atype a = Warning) as) * 10)
   \<and> calculateAnomalyScore [] = 0
   \<and> calculateAnomalyScore as \<le> 100
   \<and> (length (filter (\<lambda>a. atype a = Critical) as) \<le> length (filter (\<lambda>a. atype a = Critical) bs)
      \<and> length (filter (\<lambda>a. atype a = Warning) as) \<le> length (filter (\<lambda>a. atype a = Warning) bs)
      \<longrightarrow> calculateAnomalyScore as \<le> calculateAnomalyScore bs)"
proof -
  have f: "\<And>xs. calculateAnomalyScore xs =
     min 100 (length (filter (\<lambda>a. atype a = Critical) xs) * 30
              + length (filter (\<lambda>a. atype a = Warning) xs) * 10)"
    by (rule score_formula)
  have z: "calculateAnomalyScore [] = 0" by (simp add: calculateAnomalyScore_def)
  have b: "calculateAnomalyScore as \<le> 100" by (simp add: f)
  have m: "length (filter (\<lambda>a. atype a = Critical) as) \<le> length (filter (\<lambda>a. atype a = Critical) bs)
      \<and> length (filter (\<lambda>a. atype a = Warning) as) \<le> length (filter (\<lambda>a. atype a = Warning) bs)
      \<longrightarrow> calculateAnomalyScore as \<le> calculateAnomalyScore bs"
    unfolding f [of as] f [of bs] by (auto simp: min_def)
  from f [of as] z b m show ?thesis by blast
qed

theorem score_min_monotone_witness:
  "calculateAnomalyScore [] = 0
   \<and> length (filter (\<lambda>a. atype a = Critical) (fall_alerts ''P002'' (normalVitals\<lparr>fallRiskScore := 95\<rparr>)))
       \<le> length (filter (\<lambda>a. atype a = Critical)
            (replicate 4 (hd (fall_alerts ''P002'' (normalVitals\<lparr>fallRiskScore := 95\<rparr>)))))
   \<and> calculateAnomalyScore (fall_alerts ''P002'' (normalVitals\<lparr>fallRiskScore := 95\<rparr>)) = 30
   \<and> calculateAnomalyScore
       (replicate 4 (hd (fall_alerts ''P002'' (normalVitals\<lparr>fallRiskScore := 95\<rparr>)))) = 100
   \<and> calculateAnomalyScore (fall_alerts ''P002'' (normalVitals\<lparr>fallRiskScore := 95\<rparr>))
       \<le> calculateAnomalyScore
            (replicate 4 (hd (fall_alerts ''P002'' (normalVitals\<lparr>fallRiskScore := 95\<rparr>))))"
  using score_min_monotone [of "fall_alerts ''P002'' (normalVitals\<lparr>fallRiskScore := 95\<rparr>)"
      "replicate 4 (hd (fall_alerts ''P002'' (normalVitals\<lparr>fallRiskScore := 95\<rparr>)))"]
  by (simp add: fall_alerts_def normalVitals_def calculateAnomalyScore_def)

section \<open>Anomaly flag, alerts and score\<close>

text \<open>
  C10. In every result, \<open>isAnomaly\<close> holds exactly when the alerts are not empty, and the
  score is positive exactly when \<open>isAnomaly\<close> holds; the score of an anomaly is at least 10.
\<close>

theorem anomaly_flag_alerts_score:
  "isAnomaly (fst (detectAnomalies h d pid v p))
     = (alerts (fst (detectAnomalies h d pid v p)) \<noteq> [])
   \<and> (normalizedScore (fst (detectAnomalies h d pid v p)) > 0)
     = isAnomaly (fst (detectAnomalies h d pid v p))
   \<and> (isAnomaly (fst (detectAnomalies h d pid v p))
        \<longrightarrow> normalizedScore (fst (detectAnomalies h d pid v p)) \<ge> 10)"
proof -
  let ?as = "collect_alerts h d pid v p"
  have "?as = [] \<Longrightarrow> calculateAnomalyScore ?as = 0" by (simp add: calculateAnomalyScore_def)
  moreover have "?as \<noteq> [] \<Longrightarrow> calculateAnomalyScore ?as \<ge> 10" by (rule score_pos)
  ultimately show ?thesis by (cases "?as = []") auto
qed

theorem anomaly_flag_alerts_score_witness:
  "isAnomaly (fst (detectAnomalies 12 new_detector ''P001''
                     (normalVitals\<lparr>bodyTemperature := 38.8\<rparr>) margaret))
   \<and> normalizedScore (fst (detectAnomalies 12 new_detector ''P001''
                     (normalVitals\<lparr>bodyTemperature := 38.8\<rparr>) margaret)) = 10
   \<and> \<not> isAnomaly (fst (detectAnomalies 12 new_detector ''P001'' normalVitals margaret))
   \<and> normalizedScore (fst (detectAnomalies 12 new_detector ''P001'' normalVitals margaret)) = 0"
  using anomaly_flag_alerts_score [of 12 new_detector "''P001''"
          "normalVitals\<lparr>bodyTemperature := 38.8\<rparr>" margaret]
        anomaly_flag_alerts_score [of 12 new_detector "''P001''" normalVitals margaret]
  by (simp add: collect_alerts_def checkCriticalVitals_def hr_alerts_def bp_alerts_def
        spo2_alerts_def temp_alerts_def fall_alerts_def checkStatisticalAnomalies_def
        checkBehavioralChanges_def calculateAnomalyScore_def new_detector_def margaret_def
        normalVitals_def systolic_normal)

section \<open>The statistical test on the heart rate\<close>

lemma hr_anomaly_stat:
  "(\<exists>a\<in>set (checkStatisticalAnomalies d pid cur). acategory a = hr_anomaly) =
     (case dataWindow d pid of None \<Rightarrow> False
      | Some w \<Rightarrow> 12 \<le> length w \<and> \<bar>hrZScore w cur\<bar> > 2.5)"
proof (cases "dataWindow d pid")
  case None
  then show ?thesis by (simp add: checkStatisticalAnomalies_def)
next
  case (Some w)
  show ?thesis
  proof (cases "length w < 12")
    case True
    with Some show ?thesis by (simp add: checkStatisticalAnomalies_def)
  next
    case False
    with Some show ?thesis
      by (cases "\<bar>hrZScore w cur\<bar> > 2.5") (simp_all add: checkStatisticalAnomalies_def)
  qed
qed


lemma stat_warning: "a \<in> set (checkStatisticalAnomalies d pid cur) \<Longrightarrow> atype a = Warning"
  by (auto simp: checkStatisticalAnomalies_def split: option.splits if_splits)

lemma no_hr_anomaly_critical: "a \<in> set (checkCriticalVitals v p) \<Longrightarrow> acategory a \<noteq> hr_anomaly"
  by (auto simp: checkCriticalVitals_def hr_alerts_def bp_alerts_def spo2_alerts_def temp_alerts_def
        split: option.splits if_splits)

lemma no_hr_anomaly_fall: "a \<in> set (fall_alerts pid v) \<Longrightarrow> acategory a \<noteq> hr_anomaly"
  by (auto simp: fall_alerts_def split: if_splits)

lemma no_hr_anomaly_behav:
  "a \<in> set (checkBehavioralChanges h d pid v) \<Longrightarrow> acategory a \<noteq> hr_anomaly"
  by (auto simp: checkBehavioralChanges_def split: option.splits if_splits)

lemma hr_anomaly_collect_warning:
  "(\<exists>a\<in>set (collect_alerts h d pid v p). acategory a = hr_anomaly \<and> atype a = Warning) =
     (\<exists>a\<in>set (checkStatisticalAnomalies d pid v). acategory a = hr_anomaly)"
  unfolding collect_alerts_def
  using no_hr_anomaly_critical no_hr_anomaly_fall no_hr_anomaly_behav stat_warning
  by (simp add: bex_Un)

lemma hr_anomaly_collect:
  "(\<exists>a\<in>set (collect_alerts h d pid v p). acategory a = hr_anomaly) =
     (\<exists>a\<in>set (checkStatisticalAnomalies d pid v). acategory a = hr_anomaly)"
  unfolding collect_alerts_def
  using no_hr_anomaly_critical no_hr_anomaly_fall no_hr_anomaly_behav
  by (simp add: bex_Un)








text \<open>A window of integer heart rates: the sum is exact, the mean is the rounded quotient.\<close>

lemma hr_sum_exact:
  assumes "\<forall>x\<in>set w. heartRate x \<in> \<int> \<and> \<bar>heartRate x\<bar> \<le> 2 ^ 31" and "length w \<le> 288"
  shows "reduce_add (map heartRate w) = (\<Sum>x\<leftarrow>w. heartRate x)"
proof -
  have "real (length w) * 2 ^ 31 \<le> 288 * 2 ^ 31"
    using assms(2) by (intro mult_right_mono) simp_all
  also have "\<dots> < (2::real) ^ 53" by simp
  finally have b: "real (length (map heartRate w)) * 2 ^ 31 < 2 ^ 53" by simp
  show ?thesis
    using assms(1) b by (intro reduce_add_Ints [where B = "2 ^ 31"]) auto
qed

lemma squares_zero:
  "\<forall>x\<in>set xs. x = m \<Longrightarrow> foldl (\<lambda>sum v. dbl (sum + dbl ((dbl (v - m)) ^ 2))) 0 xs = 0"
  by (induction xs) (simp_all add: dbl_zero)

lemma mean_const:
  assumes "\<forall>x\<in>set w. heartRate x = of_int c" and "\<bar>c\<bar> \<le> 2 ^ 31"
    and "w \<noteq> []" and "length w \<le> 288"
  shows "hrMean w = of_int c"
proof -
  have c: "\<bar>real_of_int c\<bar> \<le> 2 ^ 31"
  proof -
    have "real_of_int \<bar>c\<bar> \<le> of_int (2 ^ 31)" using assms(2) by (simp only: of_int_le_iff)
    then show ?thesis by simp
  qed
  have "\<forall>x\<in>set w. heartRate x \<in> \<int> \<and> \<bar>heartRate x\<bar> \<le> 2 ^ 31"
    using assms(1) c by simp
  then have "reduce_add (map heartRate w) = (\<Sum>x\<leftarrow>w. heartRate x)"
    using assms(4) by (rule hr_sum_exact)
  also have "\<dots> = (\<Sum>x\<leftarrow>w. of_int c)"
    using assms(1) by (intro arg_cong [where f = sum_list] map_cong) simp_all
  also have "\<dots> = real (length w) * of_int c" by (simp add: sum_list_triv)
  finally have "reduce_add (map heartRate w) / real (length w) = of_int c"
    using assms(3) by simp
  moreover have "dbl (of_int c) = of_int c"
    using c by (intro dbl_Ints) simp_all
  ultimately show ?thesis by (simp add: hrMean_def)
qed

lemma std_const:
  assumes "\<forall>x\<in>set w. heartRate x = of_int c" and "\<bar>c\<bar> \<le> 2 ^ 31"
    and "w \<noteq> []" and "length w \<le> 288"
  shows "hrStd w = 0"
proof -
  have "hrSquares w = 0"
    unfolding hrSquares_def mean_const [OF assms]
    using assms(1) by (intro squares_zero) simp
  then show ?thesis by (simp add: hrStd_def dbl_zero)
qed

lemma z_const:
  assumes "\<forall>x\<in>set w. heartRate x = of_int c" and "\<bar>c\<bar> \<le> 2 ^ 31"
    and "w \<noteq> []" and "length w \<le> 288"
    and "heartRate v = of_int hv" and "\<bar>hv\<bar> \<le> 2 ^ 31"
  shows "hrZScore w v = of_int (hv - c)"
proof -
  have "\<bar>hv - c\<bar> \<le> 2 ^ 31 + 2 ^ 31" using assms(2,6) by linarith
  then have "\<bar>hv - c\<bar> < 2 ^ 53" by simp
  then have "dbl (of_int (hv - c)) = of_int (hv - c)" by (rule dbl_of_int)
  then show ?thesis
    by (simp add: hrZScore_def mean_const [OF assms(1-4)] std_const [OF assms(1-4)] assms(5))
qed

lemma loaded_window:
  assumes "w \<noteq> []" and "length w \<le> 288"
  shows "dataWindow (appendAll new_detector pid w) pid = Some w"
proof -
  have "window_of (appendAll new_detector pid w) pid = last_n 288 w"
    using window_of_appendAll [of new_detector pid w]
    by (simp add: window_of_def new_detector_def)
  also have "\<dots> = w" using assms(2) by (simp add: last_n_def)
  finally show ?thesis using appendAll_defined [OF assms(1), of new_detector pid] by simp
qed









text \<open>
  The rounding decides at the threshold. After four samples with a heart rate of 73 and
  twenty-five with 70 the mean is 2042 / 29 and the deviation 30 / 29, so that for a
  sample with 73 the quotient is 5 / 2 in exact arithmetic, which does not exceed 2.5. In
  double precision the mean is 70.41379310344827, the deviation 1.0344827586206895 and
  the z-score 2.5000000000000058, and the alert is emitted.
\<close>

lemma drift_loaded:
  "dataWindow (appendAll new_detector ''P001'' drift_window) ''P001'' = Some drift_window"
  by (rule loaded_window) (simp_all add: drift_window_def)

lemma drift_rates:
  "map heartRate drift_window = [73, 73, 73, 73, 70, 70, 70, 70, 70, 70, 70, 70, 70, 70, 70, 70, 70, 70, 70, 70, 70, 70, 70, 70, 70, 70, 70, 70, 70]"
  by (simp add: drift_window_def normalVitals_def eval_nat_numeral)

lemma drift_length: "length drift_window = 29"
  by (simp add: drift_window_def)

lemma drift_mean: "hrMean drift_window = 4954930193475513 / 70368744177664"
proof -
  have "reduce_add (map heartRate drift_window) = 2042"
    by (simp add: drift_rates reduce_add_def dbl_values)
  moreover have "dbl (2042 / 29) = 4954930193475513 / 70368744177664"
    using dbl_near [of "2042 / 29" 46 4954930193475513] by simp
  ultimately show ?thesis by (simp add: hrMean_def drift_length)
qed

lemma drift_squares: "hrSquares drift_window = 8735430311710011 / 281474976710656"
proof -
  have d73: "dbl (73 - 4954930193475513 / 70368744177664) = 181988131493959 / 70368744177664"
    using dbl_near [of "73 - 4954930193475513 / 70368744177664" 51 "5823620207806688"] by simp
  have q73: "dbl ((181988131493959 / 70368744177664)\<^sup>2) = 1882635843040959 / 281474976710656"
    using dbl_near [of "(181988131493959 / 70368744177664)\<^sup>2" 50 7530543372163836] by (simp add: power2_eq_square)
  have d70: "dbl (70 - 4954930193475513 / 70368744177664) = -29118101039033 / 70368744177664"
    using dbl_near [of "70 - 4954930193475513 / 70368744177664" 54 "-7454233865992448"] by simp
  have q70: "dbl ((-29118101039033 / 70368744177664)\<^sup>2) = 1542255282619107 / 9007199254740992"
    using dbl_near [of "(-29118101039033 / 70368744177664)\<^sup>2" 55 6169021130476428] by (simp add: power2_eq_square)
  have a1: "dbl (0 + 1882635843040959 / 281474976710656) = 1882635843040959 / 281474976710656"
    using dbl_near [of "0 + 1882635843040959 / 281474976710656" 50 7530543372163836] by simp
  have a2: "dbl (1882635843040959 / 281474976710656 + 1882635843040959 / 281474976710656) = 1882635843040959 / 140737488355328"
    using dbl_near [of "1882635843040959 / 281474976710656 + 1882635843040959 / 281474976710656" 49 7530543372163836] by simp
  have a3: "dbl (1882635843040959 / 140737488355328 + 1882635843040959 / 281474976710656) = 5647907529122877 / 281474976710656"
    using dbl_near [of "1882635843040959 / 140737488355328 + 1882635843040959 / 281474976710656" 48 5647907529122877] by simp
  have a4: "dbl (5647907529122877 / 281474976710656 + 1882635843040959 / 281474976710656) = 1882635843040959 / 70368744177664"
    using dbl_near [of "5647907529122877 / 281474976710656 + 1882635843040959 / 281474976710656" 48 7530543372163836] by simp
  have a5: "dbl (1882635843040959 / 70368744177664 + 1542255282619107 / 9007199254740992) = 7578738849745683 / 281474976710656"
    using dbl_near [of "1882635843040959 / 70368744177664 + 1542255282619107 / 9007199254740992" 48 7578738849745683] by simp
  have a6: "dbl (7578738849745683 / 281474976710656 + 1542255282619107 / 9007199254740992) = 3813467163663765 / 140737488355328"
    using dbl_near [of "7578738849745683 / 281474976710656 + 1542255282619107 / 9007199254740992" 48 7626934327327530] by simp
  have a7: "dbl (3813467163663765 / 140737488355328 + 1542255282619107 / 9007199254740992) = 7675129804909377 / 281474976710656"
    using dbl_near [of "3813467163663765 / 140737488355328 + 1542255282619107 / 9007199254740992" 48 7675129804909377] by simp
  have a8: "dbl (7675129804909377 / 281474976710656 + 1542255282619107 / 9007199254740992) = 965415660311403 / 35184372088832"
    using dbl_near [of "7675129804909377 / 281474976710656 + 1542255282619107 / 9007199254740992" 48 7723325282491224] by simp
  have a9: "dbl (965415660311403 / 35184372088832 + 1542255282619107 / 9007199254740992) = 7771520760073071 / 281474976710656"
    using dbl_near [of "965415660311403 / 35184372088832 + 1542255282619107 / 9007199254740992" 48 7771520760073071] by simp
  have a10: "dbl (7771520760073071 / 281474976710656 + 1542255282619107 / 9007199254740992) = 3909858118827459 / 140737488355328"
    using dbl_near [of "7771520760073071 / 281474976710656 + 1542255282619107 / 9007199254740992" 48 7819716237654918] by simp
  have a11: "dbl (3909858118827459 / 140737488355328 + 1542255282619107 / 9007199254740992) = 7867911715236765 / 281474976710656"
    using dbl_near [of "3909858118827459 / 140737488355328 + 1542255282619107 / 9007199254740992" 48 7867911715236765] by simp
  have a12: "dbl (7867911715236765 / 281474976710656 + 1542255282619107 / 9007199254740992) = 1979026798204653 / 70368744177664"
    using dbl_near [of "7867911715236765 / 281474976710656 + 1542255282619107 / 9007199254740992" 48 7916107192818612] by simp
  have a13: "dbl (1979026798204653 / 70368744177664 + 1542255282619107 / 9007199254740992) = 7964302670400459 / 281474976710656"
    using dbl_near [of "1979026798204653 / 70368744177664 + 1542255282619107 / 9007199254740992" 48 7964302670400459] by simp
  have a14: "dbl (7964302670400459 / 281474976710656 + 1542255282619107 / 9007199254740992) = 4006249073991153 / 140737488355328"
    using dbl_near [of "7964302670400459 / 281474976710656 + 1542255282619107 / 9007199254740992" 48 8012498147982306] by simp
  have a15: "dbl (4006249073991153 / 140737488355328 + 1542255282619107 / 9007199254740992) = 8060693625564153 / 281474976710656"
    using dbl_near [of "4006249073991153 / 140737488355328 + 1542255282619107 / 9007199254740992" 48 8060693625564153] by simp
  have a16: "dbl (8060693625564153 / 281474976710656 + 1542255282619107 / 9007199254740992) = 506805568946625 / 17592186044416"
    using dbl_near [of "8060693625564153 / 281474976710656 + 1542255282619107 / 9007199254740992" 48 8108889103146000] by simp
  have a17: "dbl (506805568946625 / 17592186044416 + 1542255282619107 / 9007199254740992) = 8157084580727847 / 281474976710656"
    using dbl_near [of "506805568946625 / 17592186044416 + 1542255282619107 / 9007199254740992" 48 8157084580727847] by simp
  have a18: "dbl (8157084580727847 / 281474976710656 + 1542255282619107 / 9007199254740992) = 4102640029154847 / 140737488355328"
    using dbl_near [of "8157084580727847 / 281474976710656 + 1542255282619107 / 9007199254740992" 48 8205280058309694] by simp
  have a19: "dbl (4102640029154847 / 140737488355328 + 1542255282619107 / 9007199254740992) = 8253475535891541 / 281474976710656"
    using dbl_near [of "4102640029154847 / 140737488355328 + 1542255282619107 / 9007199254740992" 48 8253475535891541] by simp
  have a20: "dbl (8253475535891541 / 281474976710656 + 1542255282619107 / 9007199254740992) = 2075417753368347 / 70368744177664"
    using dbl_near [of "8253475535891541 / 281474976710656 + 1542255282619107 / 9007199254740992" 48 8301671013473388] by simp
  have a21: "dbl (2075417753368347 / 70368744177664 + 1542255282619107 / 9007199254740992) = 8349866491055235 / 281474976710656"
    using dbl_near [of "2075417753368347 / 70368744177664 + 1542255282619107 / 9007199254740992" 48 8349866491055235] by simp
  have a22: "dbl (8349866491055235 / 281474976710656 + 1542255282619107 / 9007199254740992) = 4199030984318541 / 140737488355328"
    using dbl_near [of "8349866491055235 / 281474976710656 + 1542255282619107 / 9007199254740992" 48 8398061968637082] by simp
  have a23: "dbl (4199030984318541 / 140737488355328 + 1542255282619107 / 9007199254740992) = 8446257446218929 / 281474976710656"
    using dbl_near [of "4199030984318541 / 140737488355328 + 1542255282619107 / 9007199254740992" 48 8446257446218929] by simp
  have a24: "dbl (8446257446218929 / 281474976710656 + 1542255282619107 / 9007199254740992) = 1061806615475097 / 35184372088832"
    using dbl_near [of "8446257446218929 / 281474976710656 + 1542255282619107 / 9007199254740992" 48 8494452923800776] by simp
  have a25: "dbl (1061806615475097 / 35184372088832 + 1542255282619107 / 9007199254740992) = 8542648401382623 / 281474976710656"
    using dbl_near [of "1061806615475097 / 35184372088832 + 1542255282619107 / 9007199254740992" 48 8542648401382623] by simp
  have a26: "dbl (8542648401382623 / 281474976710656 + 1542255282619107 / 9007199254740992) = 4295421939482235 / 140737488355328"
    using dbl_near [of "8542648401382623 / 281474976710656 + 1542255282619107 / 9007199254740992" 48 8590843878964470] by simp
  have a27: "dbl (4295421939482235 / 140737488355328 + 1542255282619107 / 9007199254740992) = 8639039356546317 / 281474976710656"
    using dbl_near [of "4295421939482235 / 140737488355328 + 1542255282619107 / 9007199254740992" 48 8639039356546317] by simp
  have a28: "dbl (8639039356546317 / 281474976710656 + 1542255282619107 / 9007199254740992) = 2171808708532041 / 70368744177664"
    using dbl_near [of "8639039356546317 / 281474976710656 + 1542255282619107 / 9007199254740992" 48 8687234834128164] by simp
  have a29: "dbl (2171808708532041 / 70368744177664 + 1542255282619107 / 9007199254740992) = 8735430311710011 / 281474976710656"
    using dbl_near [of "2171808708532041 / 70368744177664 + 1542255282619107 / 9007199254740992" 48 8735430311710011] by simp
  show ?thesis
    by (simp only: hrSquares_def drift_rates drift_mean foldl_Cons foldl_Nil
          d73 q73 d70 q70 a1 a2 a3 a4 a5 a6 a7 a8 a9 a10 a11 a12 a13 a14 a15 a16 a17 a18 a19 a20 a21 a22 a23 a24 a25 a26 a27 a28 a29)
qed

lemma drift_std: "hrStd drift_window = 1164724041561335 / 1125899906842624"
proof -
  have v: "dbl (8735430311710011 / 281474976710656 / 29) = 2409773879092417 / 2251799813685248"
    using dbl_near [of "8735430311710011 / 281474976710656 / 29" 52 4819547758184834] by simp
  have s: "dbl (sqrt (2409773879092417 / 2251799813685248)) = 1164724041561335 / 1125899906842624"
    using dbl_sqrt_near [of "2409773879092417 / 2251799813685248" 52 4658896166245340] by (simp add: power2_eq_square)
  have "real (length drift_window) = 29" by (simp add: drift_length)
  then show ?thesis by (simp only: hrStd_def drift_squares v s)
qed

lemma drift_zscore:
  "hrZScore drift_window (normalVitals\<lparr>heartRate := 73\<rparr>) = 5629499534213133 / 2251799813685248"
proof -
  have d: "dbl (73 - 4954930193475513 / 70368744177664) = 181988131493959 / 70368744177664"
    using dbl_near [of "73 - 4954930193475513 / 70368744177664" 51 "5823620207806688"] by simp
  have z: "dbl (181988131493959 / 70368744177664 / (1164724041561335 / 1125899906842624)) = 5629499534213133 / 2251799813685248"
    using dbl_near [of "181988131493959 / 70368744177664 / (1164724041561335 / 1125899906842624)" 51 5629499534213133] by simp
  have n: "(1164724041561335 / 1125899906842624 :: real) \<noteq> 0" by simp
  have h: "heartRate (normalVitals\<lparr>heartRate := 73\<rparr>) = 73" by simp
  show ?thesis
    by (simp only: hrZScore_def drift_mean drift_std h d n if_False z)
qed

lemma drift_exact:
  "(\<Sum>x\<leftarrow>drift_window. heartRate x) / 29 = 2042 / 29
   \<and> sqrt ((\<Sum>x\<leftarrow>drift_window. (heartRate x - 2042 / 29) ^ 2) / 29) = 30 / 29
   \<and> (73 - 2042 / 29) / (30 / 29) = (5 / 2 :: real)"
proof -
  have a: "(\<Sum>x\<leftarrow>drift_window. heartRate x) = 2042"
    by (simp add: drift_window_def sum_list_replicate normalVitals_def)
  have b: "(\<Sum>x\<leftarrow>drift_window. (heartRate x - 2042 / 29) ^ 2) = 26100 / 841"
    by (simp add: drift_window_def sum_list_replicate normalVitals_def power2_eq_square)
  have "sqrt ((26100 / 841) / 29) = sqrt ((30 / 29) ^ 2)"
    by (simp add: power2_eq_square)
  also have "\<dots> = 30 / 29" by simp
  finally have c: "sqrt ((26100 / 841) / 29) = 30 / 29" .
  show ?thesis by (simp only: a b c) simp
qed

lemma drift_alert:
  "map acategory (checkStatisticalAnomalies (appendAll new_detector ''P001'' drift_window) ''P001''
                    (normalVitals\<lparr>heartRate := 73\<rparr>)) = [hr_anomaly]
   \<and> hrZScore drift_window (normalVitals\<lparr>heartRate := 73\<rparr>)
       = 5629499534213133 / 2251799813685248"
proof -
  have t: "spo2Trend drift_window = 0"
    by (simp add: spo2Trend_def last_n_def drift_window_def normalVitals_def dbl_values)
  show ?thesis
    by (simp add: checkStatisticalAnomalies_def drift_loaded drift_zscore drift_length t)
qed



section \<open>Twelve entries are needed\<close>

lemma stat_categories:
  "a \<in> set (checkStatisticalAnomalies d pid v) \<Longrightarrow>
     acategory a = hr_anomaly \<or> acategory a = spo2_declining"
  by (auto simp: checkStatisticalAnomalies_def split: option.splits if_splits)

lemma no_stat_critical:
  "a \<in> set (checkCriticalVitals v p) \<Longrightarrow>
     acategory a \<noteq> hr_anomaly \<and> acategory a \<noteq> spo2_declining"
  by (auto simp: checkCriticalVitals_def hr_alerts_def bp_alerts_def spo2_alerts_def temp_alerts_def
        split: option.splits if_splits)

lemma no_stat_fall:
  "a \<in> set (fall_alerts pid v) \<Longrightarrow> acategory a \<noteq> hr_anomaly \<and> acategory a \<noteq> spo2_declining"
  by (auto simp: fall_alerts_def split: if_splits)

lemma no_stat_behav:
  "a \<in> set (checkBehavioralChanges h d pid v) \<Longrightarrow>
     acategory a \<noteq> hr_anomaly \<and> acategory a \<noteq> spo2_declining"
  by (auto simp: checkBehavioralChanges_def split: option.splits if_splits)

lemma filter_none: "(\<And>a. a \<in> set xs \<Longrightarrow> \<not> P a) \<Longrightarrow> filter P xs = []"
  by (induction xs) simp_all

lemma filter_all: "(\<And>a. a \<in> set xs \<Longrightarrow> P a) \<Longrightarrow> filter P xs = xs"
  by (induction xs) simp_all

lemma stat_of_collect:
  "filter (\<lambda>a. acategory a = hr_anomaly \<or> acategory a = spo2_declining)
     (collect_alerts h d pid v p) = checkStatisticalAnomalies d pid v"
proof -
  let ?P = "\<lambda>a. acategory a = hr_anomaly \<or> acategory a = spo2_declining"
  have 1: "filter ?P (checkCriticalVitals v p) = []"
    using no_stat_critical [of _ v p] by (intro filter_none) auto
  have 2: "filter ?P (fall_alerts pid v) = []"
    using no_stat_fall [of _ pid v] by (intro filter_none) auto
  have 3: "filter ?P (checkBehavioralChanges h d pid v) = []"
    using no_stat_behav [of _ h d pid v] by (intro filter_none) auto
  have 4: "filter ?P (checkStatisticalAnomalies d pid v) = checkStatisticalAnomalies d pid v"
    using stat_categories [of _ d pid v] by (intro filter_all) auto
  show ?thesis by (simp only: collect_alerts_def filter_append 1 2 3 4 append_Nil append_Nil2)
qed

lemma stat_short: "length (window_of d pid) < 12 \<Longrightarrow> checkStatisticalAnomalies d pid v = []"
  by (cases "dataWindow d pid") (simp_all add: checkStatisticalAnomalies_def window_of_def)

lemma window_defined: "0 < length (window_of d pid) \<Longrightarrow> dataWindow d pid = Some (window_of d pid)"
  by (simp add: window_of_def split: option.splits)

lemma detect_appends:
  "length (window_of d pid) < 288 \<Longrightarrow>
     window_of (snd (detectAnomalies h d pid v p)) pid = window_of d pid @ [v]"
  by (simp add: window_of_def [of "snd (detectAnomalies h d pid v p)"] detect_window)
     (simp add: addToWindow_def window_of_def Let_def split: option.splits)

text \<open>
  C6. The statistical test reads the window as it is when \<open>detectAnomalies\<close> is called:
  the alerts of the two statistical categories in the result are those of the test on
  the detector before the call, and the sample is in the window only afterwards. With
  fewer than twelve entries in that window (or no window) the test yields no alert, and
  the result has none of the two categories. With twelve entries or more, a sample whose
  absolute z-score exceeds 2.5 gives an \<open>hr_anomaly\<close> alert of type warning. In
  particular, when the heart rate is the same integer in all entries and the sample's
  integer heart rate differs from it by more than 2.5 (the deviation is zero, so the
  difference is the z-score), a window of twelve entries gives the alert and a window of
  eleven gives none.
\<close>

theorem hr_anomaly_needs_twelve:
  "(length (window_of d pid) < 12 \<longrightarrow>
      checkStatisticalAnomalies d pid v = []
      \<and> \<not> (\<exists>a\<in>set (alerts (fst (detectAnomalies h d pid v p))).
               acategory a = hr_anomaly \<or> acategory a = spo2_declining))
   \<and> filter (\<lambda>a. acategory a = hr_anomaly \<or> acategory a = spo2_declining)
        (alerts (fst (detectAnomalies h d pid v p))) = checkStatisticalAnomalies d pid v
   \<and> (length (window_of d pid) < 288 \<longrightarrow>
        window_of (snd (detectAnomalies h d pid v p)) pid = window_of d pid @ [v])
   \<and> (12 \<le> length (window_of d pid) \<and> \<bar>hrZScore (window_of d pid) v\<bar> > 2.5 \<longrightarrow>
        (\<exists>a\<in>set (alerts (fst (detectAnomalies h d pid v p))).
            acategory a = hr_anomaly \<and> atype a = Warning))
   \<and> (list_all (\<lambda>x. heartRate x = of_int c) (window_of d pid) \<and> \<bar>c\<bar> \<le> 2 ^ 31
        \<and> heartRate v = of_int hv \<and> \<bar>hv\<bar> \<le> 2 ^ 31 \<and> 2.5 < \<bar>real_of_int (hv - c)\<bar> \<longrightarrow>
        (12 \<le> length (window_of d pid) \<and> length (window_of d pid) \<le> 288 \<longrightarrow>
           hrZScore (window_of d pid) v = of_int (hv - c)
           \<and> (\<exists>a\<in>set (alerts (fst (detectAnomalies h d pid v p))).
                 acategory a = hr_anomaly \<and> atype a = Warning))
        \<and> (length (window_of d pid) = 11 \<longrightarrow>
           \<not> (\<exists>a\<in>set (alerts (fst (detectAnomalies h d pid v p))). acategory a = hr_anomaly)))"
proof -
  let ?w = "window_of d pid"
  let ?as = "alerts (fst (detectAnomalies h d pid v p))"
  have f: "filter (\<lambda>a. acategory a = hr_anomaly \<or> acategory a = spo2_declining) ?as
             = checkStatisticalAnomalies d pid v"
    by (simp only: detect_alerts stat_of_collect)
  have short: "checkStatisticalAnomalies d pid v = []
      \<and> \<not> (\<exists>a\<in>set ?as. acategory a = hr_anomaly \<or> acategory a = spo2_declining)"
    if "length ?w < 12"
  proof -
    have e: "checkStatisticalAnomalies d pid v = []" by (rule stat_short [OF that])
    have "filter (\<lambda>a. acategory a = hr_anomaly \<or> acategory a = spo2_declining) ?as = []"
      by (simp only: f e)
    then show ?thesis using e by (simp only: filter_empty_conv) blast
  qed
  have fires: "\<exists>a\<in>set ?as. acategory a = hr_anomaly \<and> atype a = Warning"
    if "12 \<le> length ?w" and "\<bar>hrZScore ?w v\<bar> > 2.5"
  proof -
    have "0 < length ?w" using that(1) by linarith
    then have "dataWindow d pid = Some ?w" by (rule window_defined)
    then show ?thesis
      unfolding detect_alerts hr_anomaly_collect_warning hr_anomaly_stat using that by simp
  qed
  have const: "hrZScore ?w v = of_int (hv - c)
        \<and> (\<exists>a\<in>set ?as. acategory a = hr_anomaly \<and> atype a = Warning)"
    if "list_all (\<lambda>x. heartRate x = of_int c) ?w" and "\<bar>c\<bar> \<le> 2 ^ 31"
      and "heartRate v = of_int hv" and "\<bar>hv\<bar> \<le> 2 ^ 31" and "2.5 < \<bar>real_of_int (hv - c)\<bar>"
      and "12 \<le> length ?w" and "length ?w \<le> 288"
  proof -
    have a: "\<forall>x\<in>set ?w. heartRate x = of_int c" using that(1) by (simp add: list_all_iff)
    have "0 < length ?w" using that(6) by linarith
    then have ne: "?w \<noteq> []" by simp
    have z: "hrZScore ?w v = of_int (hv - c)"
      by (rule z_const [OF a that(2) ne that(7) that(3) that(4)])
    then have "\<bar>hrZScore ?w v\<bar> > 2.5" using that(5) by simp
    then show ?thesis using z fires [OF that(6)] by simp
  qed
  have eleven: "\<not> (\<exists>a\<in>set ?as. acategory a = hr_anomaly)" if "length ?w = 11"
    using short that by auto
  from f short fires const eleven detect_appends [of d pid h v p] show ?thesis by blast
qed

theorem hr_anomaly_needs_twelve_witness:
  "window_of (appendAll new_detector ''P001'' (replicate 12 normalVitals)) ''P001''
     = replicate 12 normalVitals
   \<and> window_of (appendAll new_detector ''P001'' (replicate 11 normalVitals)) ''P001''
     = replicate 11 normalVitals
   \<and> list_all (\<lambda>x. heartRate x = of_int 72) (replicate 12 normalVitals)
   \<and> list_all (\<lambda>x. heartRate x = of_int 72) (replicate 11 normalVitals)
   \<and> heartRate (normalVitals\<lparr>heartRate := 110\<rparr>) = of_int 110
   \<and> 2.5 < \<bar>real_of_int (110 - 72)\<bar>
   \<and> hrZScore (replicate 12 normalVitals) (normalVitals\<lparr>heartRate := 110\<rparr>) = 38
   \<and> (\<exists>a\<in>set (alerts (fst (detectAnomalies 12
              (appendAll new_detector ''P001'' (replicate 12 normalVitals)) ''P001''
              (normalVitals\<lparr>heartRate := 110\<rparr>) margaret))).
         acategory a = hr_anomaly \<and> atype a = Warning)
   \<and> window_of (snd (detectAnomalies 12
              (appendAll new_detector ''P001'' (replicate 12 normalVitals)) ''P001''
              (normalVitals\<lparr>heartRate := 110\<rparr>) margaret)) ''P001''
       = replicate 12 normalVitals @ [normalVitals\<lparr>heartRate := 110\<rparr>]
   \<and> checkStatisticalAnomalies (appendAll new_detector ''P001'' (replicate 11 normalVitals))
        ''P001'' (normalVitals\<lparr>heartRate := 110\<rparr>) = []
   \<and> \<not> (\<exists>a\<in>set (alerts (fst (detectAnomalies 12
              (appendAll new_detector ''P001'' (replicate 11 normalVitals)) ''P001''
              (normalVitals\<lparr>heartRate := 110\<rparr>) margaret))).
         acategory a = hr_anomaly \<or> acategory a = spo2_declining)"
proof -
  let ?d12 = "appendAll new_detector ''P001'' (replicate 12 normalVitals)"
  let ?d11 = "appendAll new_detector ''P001'' (replicate 11 normalVitals)"
  let ?v = "normalVitals\<lparr>heartRate := 110\<rparr>"
  have "dataWindow ?d12 ''P001'' = Some (replicate 12 normalVitals)"
    by (rule loaded_window) simp_all
  then have w12: "window_of ?d12 ''P001'' = replicate 12 normalVitals"
    by (simp add: window_of_def)
  have "dataWindow ?d11 ''P001'' = Some (replicate 11 normalVitals)"
    by (rule loaded_window) simp_all
  then have w11: "window_of ?d11 ''P001'' = replicate 11 normalVitals"
    by (simp add: window_of_def)
  have c12: "list_all (\<lambda>x. heartRate x = of_int 72) (replicate 12 normalVitals)"
    by (simp add: normalVitals_def list_all_iff)
  have c11: "list_all (\<lambda>x. heartRate x = of_int 72) (replicate 11 normalVitals)"
    by (simp add: normalVitals_def list_all_iff)
  have hv: "heartRate ?v = of_int 110" by simp
  have s: "2.5 < \<bar>real_of_int (110 - 72)\<bar>" by simp
  note t12 = hr_anomaly_needs_twelve [of ?d12 "''P001''" ?v 12 margaret 72 110, unfolded w12]
  note t11 = hr_anomaly_needs_twelve [of ?d11 "''P001''" ?v 12 margaret 72 110, unfolded w11]
  have z: "hrZScore (replicate 12 normalVitals) ?v = 38"
    using t12 c12 hv s by simp
  have a12: "\<exists>a\<in>set (alerts (fst (detectAnomalies 12 ?d12 ''P001'' ?v margaret))).
         acategory a = hr_anomaly \<and> atype a = Warning"
    using t12 c12 hv s by simp
  have x12: "window_of (snd (detectAnomalies 12 ?d12 ''P001'' ?v margaret)) ''P001''
       = replicate 12 normalVitals @ [?v]"
    using t12 by simp
  have e11: "checkStatisticalAnomalies ?d11 ''P001'' ?v = []"
    using t11 by simp
  have n11: "\<not> (\<exists>a\<in>set (alerts (fst (detectAnomalies 12 ?d11 ''P001'' ?v margaret))).
         acategory a = hr_anomaly \<or> acategory a = spo2_declining)"
    using t11 by simp
  show ?thesis
    using w12 w11 c12 c11 hv s z a12 x12 e11 n11 by simp
qed

section \<open>A detection depends on the patient's window and on day or night only\<close>

lemma stat_cong:
  "dataWindow d pid = dataWindow d' pid \<Longrightarrow>
     checkStatisticalAnomalies d pid v = checkStatisticalAnomalies d' pid v"
  by (simp add: checkStatisticalAnomalies_def)

lemma behav_cong:
  "dataWindow d pid = dataWindow d' pid \<Longrightarrow> isNight h = isNight h' \<Longrightarrow>
     checkBehavioralChanges h d pid v = checkBehavioralChanges h' d' pid v"
  by (simp add: checkBehavioralChanges_def split: option.splits)

lemma detect_cong:
  assumes "dataWindow d pid = dataWindow d' pid" and "isNight h = isNight h'"
  shows "fst (detectAnomalies h d pid v p) = fst (detectAnomalies h' d' pid v p)"
  using stat_cong [OF assms(1), of v] behav_cong [OF assms, of v]
  by (simp add: detectAnomalies_def Let_def collect_alerts_def collect_severity_def)

lemma detect_window_cong:
  assumes "dataWindow d pid = dataWindow d' pid"
  shows "dataWindow (snd (detectAnomalies h d pid v p)) pid
       = dataWindow (snd (detectAnomalies h' d' pid v p')) pid"
  using assms by (simp add: detect_window addToWindow_window window_of_def)

section \<open>One record of the run\<close>



lemma process_record_old:
  assumes "\<not> is_new clock pid p st r"
  shows "process_record clock fl upd pid p st r =
     st\<lparr>res := (res st)\<lparr>processed := processed (res st) + 1\<rparr>,
        det := snd (detectAnomalies (clock (processed (res st))) (det st) pid (rec_vitals r) p)\<rparr>"
  using assms
  by (auto simp: process_record_def is_new_def rec_detection_def Let_def split_beta)

lemma process_record_new:
  assumes "is_new clock pid p st r"
  shows "process_record clock fl upd pid p st r =
     (let st3 = st\<lparr>det := snd (detectAnomalies (clock (processed (res st))) (det st) pid (rec_vitals r) p),
                   res := count_new ((res st)\<lparr>processed := processed (res st) + 1\<rparr>) pid
                              (d_severity (rec_detection clock pid p st r))\<rparr>
      in if upd then save_anomaly fl pid p (recordedAt r) (rec_detection clock pid p st r) st3 else st3)"
  using assms
  by (auto simp: process_record_def is_new_def rec_detection_def Let_def split_beta)

lemma count_new_processed [simp]: "processed (count_new r pid sev) = processed r"
  by (simp add: count_new_def Let_def)

lemma count_new_new [simp]: "newAnomaliesDetected (count_new r pid sev) = newAnomaliesDetected r + 1"
  by (simp add: count_new_def Let_def)

lemma save_det [simp]: "det (save_anomaly fl pid p t dn st) = det st"
  by (simp add: save_anomaly_def Let_def split: option.splits)

lemma save_processed [simp]: "processed (res (save_anomaly fl pid p t dn st)) = processed (res st)"
  by (simp add: save_anomaly_def Let_def split: option.splits)

lemma save_keys: "keys st \<subseteq> keys (save_anomaly fl pid p t dn st)"
  by (auto simp: save_anomaly_def Let_def split: option.splits)

lemma save_records [simp]:
  "healthRecords (db (save_anomaly fl pid p t dn st)) = healthRecords (db st)"
  "patients (db (save_anomaly fl pid p t dn st)) = patients (db st)"
  by (simp_all add: save_anomaly_def Let_def split: option.splits)

lemma save_no_faults_key: "t = t' \<Longrightarrow> anomalyKey pid t' \<in> keys (save_anomaly no_faults pid p t dn st)"
  by (simp add: save_anomaly_def no_faults_def Let_def)


lemma persisted_keys_grow:
  "existingAnomalySet (find_anomalies dbs opts)
     \<subseteq> existingAnomalySet (find_anomalies (dbs\<lparr>anomalies := anomalies dbs @ xs\<rparr>) opts)"
  by (auto simp: existingAnomalySet_def find_anomalies_def)

lemma persisted_key_new:
  assumes "matches_query opts pid t"
  shows "anomalyKey pid t
     \<in> existingAnomalySet (find_anomalies (dbs\<lparr>anomalies := anomalies dbs @ [new_anomaly pid t dn]\<rparr>) opts)"
proof -
  have "new_anomaly pid t dn
      \<in> set (find_anomalies (dbs\<lparr>anomalies := anomalies dbs @ [new_anomaly pid t dn]\<rparr>) opts)"
    using assms by (simp add: find_anomalies_def new_anomaly_def)
  then have "anomalyKey (an_patientId (new_anomaly pid t dn)) (detectedAt (new_anomaly pid t dn))
      \<in> existingAnomalySet (find_anomalies (dbs\<lparr>anomalies := anomalies dbs @ [new_anomaly pid t dn]\<rparr>) opts)"
    unfolding existingAnomalySet_def by (simp only: set_map) (rule imageI)
  then show ?thesis by (simp add: new_anomaly_def)
qed

lemma find_anomalies_logs [simp]:
  "find_anomalies (dbs\<lparr>alertLogs := x\<rparr>) opts = find_anomalies dbs opts"
  by (simp add: find_anomalies_def)

lemma save_persisted:
  assumes "keys_persisted opts st" and "matches_query opts pid t"
  shows "keys_persisted opts (save_anomaly fl pid p t dn st)"
proof -
  let ?db1 = "(db st)\<lparr>anomalies := anomalies (db st) @ [new_anomaly pid t dn]\<rparr>"
  have old: "keys st \<subseteq> existingAnomalySet (find_anomalies ?db1 opts)"
    using assms(1) persisted_keys_grow [of "db st" opts "[new_anomaly pid t dn]"]
    by (auto simp: keys_persisted_def)
  have new: "anomalyKey pid t \<in> existingAnomalySet (find_anomalies ?db1 opts)"
    by (rule persisted_key_new [OF assms(2)])
  show ?thesis
    using assms(1) old new
    by (simp add: keys_persisted_def save_anomaly_def Let_def split: option.splits)
qed

lemma pr_det:
  "det (process_record clock fl upd pid p st r)
     = snd (detectAnomalies (clock (processed (res st))) (det st) pid (rec_vitals r) p)"
  by (cases "is_new clock pid p st r") (simp_all add: process_record_old process_record_new Let_def)

lemma pr_processed:
  "processed (res (process_record clock fl upd pid p st r)) = processed (res st) + 1"
  by (cases "is_new clock pid p st r") (simp_all add: process_record_old process_record_new Let_def)

lemma pr_keys: "keys st \<subseteq> keys (process_record clock fl upd pid p st r)"
proof (cases "is_new clock pid p st r")
  case True
  let ?st3 = "st\<lparr>det := snd (detectAnomalies (clock (processed (res st))) (det st) pid (rec_vitals r) p),
                   res := count_new ((res st)\<lparr>processed := processed (res st) + 1\<rparr>) pid
                              (d_severity (rec_detection clock pid p st r))\<rparr>"
  have "keys st = keys ?st3" by simp
  also have "\<dots> \<subseteq> keys (save_anomaly fl pid p (recordedAt r) (rec_detection clock pid p st r) ?st3)"
    by (rule save_keys)
  finally show ?thesis unfolding process_record_new [OF True] Let_def
    by (cases upd) simp_all
next
  case False
  then show ?thesis by (simp add: process_record_old)
qed

lemma pr_records:
  "healthRecords (db (process_record clock fl upd pid p st r)) = healthRecords (db st)"
  "patients (db (process_record clock fl upd pid p st r)) = patients (db st)"
  by (cases "is_new clock pid p st r"; simp add: process_record_old process_record_new Let_def)+

lemma pr_persisted:
  assumes "keys_persisted opts st" and "matches_query opts pid (recordedAt r)"
  shows "keys_persisted opts (process_record clock fl upd pid p st r)"
proof (cases "is_new clock pid p st r")
  case True
  let ?st3 = "st\<lparr>det := snd (detectAnomalies (clock (processed (res st))) (det st) pid (rec_vitals r) p),
                   res := count_new ((res st)\<lparr>processed := processed (res st) + 1\<rparr>) pid
                              (d_severity (rec_detection clock pid p st r))\<rparr>"
  have k3: "keys_persisted opts ?st3" using assms(1) by (simp add: keys_persisted_def)
  show ?thesis unfolding process_record_new [OF True] Let_def
    using k3 save_persisted [OF k3 assms(2)] by (cases upd) simp_all
next
  case False
  then show ?thesis using assms(1) by (simp add: process_record_old keys_persisted_def)
qed

lemma pr_anomaly_key:
  assumes "isAnomaly (rec_detection clock pid p st r)"
  shows "anomalyKey pid (recordedAt r) \<in> keys (process_record clock no_faults True pid p st r)"
proof (cases "is_new clock pid p st r")
  case True
  show ?thesis unfolding process_record_new [OF True] Let_def
    by (simp add: save_no_faults_key)
next
  case False
  with assms show ?thesis by (simp add: process_record_old is_new_def)
qed

section \<open>The records of one patient\<close>

lemma prs_keys: "keys st \<subseteq> keys (foldl (process_record clock fl upd pid p) st rs)"
proof (induction rs arbitrary: st)
  case Nil
  show ?case by simp
next
  case (Cons r rs)
  show ?case using pr_keys [of st clock fl upd pid p r] Cons [of "process_record clock fl upd pid p st r"]
    by auto
qed

lemma prs_records:
  "healthRecords (db (foldl (process_record clock fl upd pid p) st rs)) = healthRecords (db st)
   \<and> patients (db (foldl (process_record clock fl upd pid p) st rs)) = patients (db st)"
  by (induction rs arbitrary: st) (simp_all add: pr_records)

lemma prs_processed:
  "processed (res (foldl (process_record clock fl upd pid p) st rs)) = processed (res st) + length rs"
  by (induction rs arbitrary: st) (simp_all add: pr_processed)

lemma prs_persisted:
  assumes "keys_persisted opts st" and "\<forall>r\<in>set rs. matches_query opts pid (recordedAt r)"
  shows "keys_persisted opts (foldl (process_record clock fl upd pid p) st rs)"
  using assms
  by (induction rs arbitrary: st) (simp_all add: pr_persisted)


lemma quiet_refl: "quiet s s"
  by (simp add: quiet_def)

lemma quiet_trans: "quiet s t \<Longrightarrow> quiet t u \<Longrightarrow> quiet s u"
  by (simp add: quiet_def)

lemma prs_replay:
  assumes night: "\<forall>n. isNight (clock2 n) = isNight (clock1 n)"
  shows "dataWindow (det s1) pid = dataWindow (det s2) pid \<Longrightarrow>
    processed (res s1) = processed (res s2) \<Longrightarrow>
    keys (foldl (process_record clock1 no_faults True pid p) s1 rs) \<subseteq> keys s2 \<Longrightarrow>
    quiet s2 (foldl (process_record clock2 fl2 upd2 pid p) s2 rs)"
proof (induction rs arbitrary: s1 s2)
  case Nil
  show ?case by (simp add: quiet_refl)
next
  case (Cons r rs)
  let ?s1 = "process_record clock1 no_faults True pid p s1 r"
  let ?s2 = "process_record clock2 fl2 upd2 pid p s2 r"
  have same: "rec_detection clock2 pid p s2 r = rec_detection clock1 pid p s1 r"
    unfolding rec_detection_def
    using detect_cong [of "det s2" pid "det s1" "clock2 (processed (res s2))" "clock1 (processed (res s1))"]
      Cons.prems(1,2) night by simp
  have sub: "keys ?s1 \<subseteq> keys s2"
    using prs_keys [of ?s1 clock1 no_faults True pid p rs] Cons.prems(3) by auto
  have old: "\<not> is_new clock2 pid p s2 r"
  proof
    assume n: "is_new clock2 pid p s2 r"
    then have "isAnomaly (rec_detection clock1 pid p s1 r)" by (simp add: is_new_def same)
    then have "anomalyKey pid (recordedAt r) \<in> keys ?s1" by (rule pr_anomaly_key)
    with sub have "anomalyKey pid (recordedAt r) \<in> keys s2" by auto
    with n show False by (simp add: is_new_def)
  qed
  have q: "quiet s2 ?s2" by (simp add: process_record_old [OF old] quiet_def)
  have w: "dataWindow (det ?s1) pid = dataWindow (det ?s2) pid"
    unfolding pr_det using detect_window_cong [OF Cons.prems(1)] by simp
  have pc: "processed (res ?s1) = processed (res ?s2)"
    by (simp add: pr_processed Cons.prems(2))
  have k: "keys (foldl (process_record clock1 no_faults True pid p) ?s1 rs) \<subseteq> keys ?s2"
    using Cons.prems(3) q by (simp add: quiet_def)
  have "quiet ?s2 (foldl (process_record clock2 fl2 upd2 pid p) ?s2 rs)"
    by (rule Cons.IH [OF w pc k])
  with q show ?case by (simp add: quiet_trans [of s2 ?s2])
qed

section \<open>The replay agrees with the run\<close>

lemma window_detector_window: "dataWindow (window_detector pid w) pid = w"
  by (simp add: window_detector_def)

lemma is_new_window:
  "is_new clock pid p st r =
     (isAnomaly (fst (detectAnomalies (clock (processed (res st)))
                  (window_detector pid (dataWindow (det st) pid)) pid (rec_vitals r) p))
      \<and> anomalyKey pid (recordedAt r) \<notin> keys st)"
  unfolding is_new_def rec_detection_def
  using detect_cong [of "det st" pid "window_detector pid (dataWindow (det st) pid)"
          "clock (processed (res st))" "clock (processed (res st))" "rec_vitals r" p]
  by (simp only: window_detector_window)

lemma pr_window:
  "dataWindow (det (process_record clock fl upd pid p st r)) pid
     = dataWindow (addToWindow (window_detector pid (dataWindow (det st) pid)) pid (rec_vitals r)) pid"
  unfolding pr_det detect_window
  by (simp add: addToWindow_window window_of_def window_detector_window)

lemma save_count [simp]:
  "newAnomaliesDetected (res (save_anomaly fl pid p t dn st)) = newAnomaliesDetected (res st)"
  by (simp add: save_anomaly_def Let_def split: option.splits)

lemma pr_count:
  "newAnomaliesDetected (res (process_record clock fl upd pid p st r))
     = newAnomaliesDetected (res st) + (if is_new clock pid p st r then 1 else 0)"
  by (cases "is_new clock pid p st r") (simp_all add: process_record_old process_record_new Let_def)

lemma new_alert_logs_length: "length (new_alert_logs pid t p dn) = length (alerts dn)"
  by (simp add: new_alert_logs_def)

lemma save_no_faults:
  "keys (save_anomaly no_faults pid p t dn st) = insert (anomalyKey pid t) (keys st)
   \<and> anomalies (db (save_anomaly no_faults pid p t dn st)) = anomalies (db st) @ [new_anomaly pid t dn]"
  by (simp add: save_anomaly_def no_faults_def Let_def)

lemma pr_written:
  "keys (process_record clock no_faults True pid p st r)
     = (if is_new clock pid p st r then insert (anomalyKey pid (recordedAt r)) (keys st) else keys st)
   \<and> map (\<lambda>a. (an_patientId a, detectedAt a)) (anomalies (db (process_record clock no_faults True pid p st r)))
     = map (\<lambda>a. (an_patientId a, detectedAt a)) (anomalies (db st))
         @ (if is_new clock pid p st r then [(pid, recordedAt r)] else [])"
  by (cases "is_new clock pid p st r")
     (simp_all add: process_record_old process_record_new Let_def save_no_faults new_anomaly_def)

lemma replay_sound:
  "newAnomaliesDetected (res (foldl (process_record clock no_faults True pid p) st rs))
     = newAnomaliesDetected (res st)
       + length (replay_new clock pid p (processed (res st)) (dataWindow (det st) pid) (keys st) rs)
   \<and> map (\<lambda>a. (an_patientId a, detectedAt a))
        (anomalies (db (foldl (process_record clock no_faults True pid p) st rs)))
     = map (\<lambda>a. (an_patientId a, detectedAt a)) (anomalies (db st))
       @ map (Pair pid)
           (replay_new clock pid p (processed (res st)) (dataWindow (det st) pid) (keys st) rs)"
proof (induction rs arbitrary: st)
  case Nil
  show ?case by simp
next
  case (Cons r rs)
  let ?st = "process_record clock no_faults True pid p st r"
  note ih = Cons [of ?st]
  show ?case
    unfolding foldl_Cons replay_new.simps is_new_window [symmetric]
    using ih pr_written [of clock pid p st r] pr_count [of clock no_faults True pid p st r]
      pr_window [of clock no_faults True pid p st r] pr_processed [of clock no_faults True pid p st r]
    by (cases "is_new clock pid p st r") simp_all
qed

section \<open>The context of a patient\<close>

lemma reset_window [simp]: "dataWindow (resetPatient d pid) pid = None"
  by (simp add: resetPatient_def)

lemma appendAll_Nil [simp]: "appendAll d pid [] = d"
  by (simp add: appendAll_def)

lemma context_window:
  "dataWindow (appendAll (resetPatient d pid) pid vs) pid
     = (if vs = [] then None else Some (last_n 288 vs))"
proof (cases "vs = []")
  case True
  then show ?thesis by simp
next
  case False
  have "window_of (appendAll (resetPatient d pid) pid vs) pid = last_n 288 vs"
    using window_of_appendAll [of "resetPatient d pid" pid vs] by (simp add: window_of_def)
  then show ?thesis using appendAll_defined [OF False, of "resetPatient d pid" pid] False by simp
qed

lemma load_context_window:
  assumes "healthRecords dbs = healthRecords dbs'"
  shows "dataWindow (load_context (resetPatient d pid) dbs pid rs) pid
       = dataWindow (load_context (resetPatient d' pid) dbs' pid rs) pid"
  using assms by (cases rs) (simp_all add: load_context_def context_window find_context_def)

section \<open>The groups of a run\<close>

lemma pp_keys: "keys st \<subseteq> keys (process_patient clock fl upd pm st g)"
proof (cases "pm (fst g)")
  case None
  then show ?thesis by (simp add: process_patient_def Let_def)
next
  case (Some p)
  let ?st2 = "st\<lparr>res := (res st)\<lparr>patientsSummary := (patientsSummary (res st))(fst g \<mapsto>
                           \<lparr>patientName = name p, recordsProcessed = length (snd g),
                            newAnomalies = 0, criticalAnomalies = 0, warningAnomalies = 0\<rparr>)\<rparr>,
                det := load_context (resetPatient (det st) (fst g)) (db st) (fst g) (snd g)\<rparr>"
  have "keys st = keys ?st2" by simp
  also have "\<dots> \<subseteq> keys (foldl (process_record clock fl upd (fst g) p) ?st2 (snd g))"
    by (rule prs_keys)
  finally show ?thesis using Some by (simp add: process_patient_def Let_def)
qed

lemma pp_records:
  "healthRecords (db (process_patient clock fl upd pm st g)) = healthRecords (db st)
   \<and> patients (db (process_patient clock fl upd pm st g)) = patients (db st)"
  by (cases "pm (fst g)") (simp_all add: process_patient_def Let_def prs_records)

lemma pp_persisted:
  assumes "keys_persisted opts st" and "\<forall>r\<in>set (snd g). matches_query opts (fst g) (recordedAt r)"
  shows "keys_persisted opts (process_patient clock fl upd pm st g)"
proof (cases "pm (fst g)")
  case None
  then show ?thesis using assms(1) by (simp add: process_patient_def Let_def keys_persisted_def)
next
  case (Some p)
  let ?st2 = "st\<lparr>res := (res st)\<lparr>patientsSummary := (patientsSummary (res st))(fst g \<mapsto>
                           \<lparr>patientName = name p, recordsProcessed = length (snd g),
                            newAnomalies = 0, criticalAnomalies = 0, warningAnomalies = 0\<rparr>)\<rparr>,
                det := load_context (resetPatient (det st) (fst g)) (db st) (fst g) (snd g)\<rparr>"
  have "keys_persisted opts ?st2" using assms(1) by (simp add: keys_persisted_def)
  then have "keys_persisted opts (foldl (process_record clock fl upd (fst g) p) ?st2 (snd g))"
    using assms(2) by (rule prs_persisted)
  then show ?thesis using Some by (simp add: process_patient_def Let_def keys_persisted_def)
qed

lemma pps_keys: "keys st \<subseteq> keys (foldl (process_patient clock fl upd pm) st gs)"
proof (induction gs arbitrary: st)
  case Nil
  show ?case by simp
next
  case (Cons g gs)
  show ?case
    using pp_keys [of st clock fl upd pm g] Cons [of "process_patient clock fl upd pm st g"]
    by auto
qed

lemma pps_records:
  "healthRecords (db (foldl (process_patient clock fl upd pm) st gs)) = healthRecords (db st)
   \<and> patients (db (foldl (process_patient clock fl upd pm) st gs)) = patients (db st)"
  by (induction gs arbitrary: st) (simp_all add: pp_records)

lemma pps_persisted:
  assumes "keys_persisted opts st"
    and "\<forall>g\<in>set gs. \<forall>r\<in>set (snd g). matches_query opts (fst g) (recordedAt r)"
  shows "keys_persisted opts (foldl (process_patient clock fl upd pm) st gs)"
  using assms by (induction gs arbitrary: st) (simp_all add: pp_persisted)

lemma pp_processed:
  "processed (res (process_patient clock fl upd pm st g))
     = processed (res st) + (case pm (fst g) of None \<Rightarrow> 0 | Some _ \<Rightarrow> length (snd g))"
  by (cases "pm (fst g)") (simp_all add: process_patient_def Let_def prs_processed)

lemma pp_replay:
  assumes night: "\<forall>n. isNight (clock2 n) = isNight (clock1 n)"
    and proc: "processed (res s1) = processed (res s2)"
    and recs: "healthRecords (db s1) = healthRecords (db s2)"
    and sub: "keys (process_patient clock1 no_faults True pm s1 g) \<subseteq> keys s2"
  shows "quiet s2 (process_patient clock2 fl2 upd2 pm s2 g)"
proof (cases "pm (fst g)")
  case None
  then show ?thesis by (simp add: process_patient_def Let_def quiet_def)
next
  case (Some p)
  define a1 where "a1 = s1\<lparr>res := (res s1)\<lparr>patientsSummary := (patientsSummary (res s1))(fst g \<mapsto>
                           \<lparr>patientName = name p, recordsProcessed = length (snd g),
                            newAnomalies = 0, criticalAnomalies = 0, warningAnomalies = 0\<rparr>)\<rparr>,
                det := load_context (resetPatient (det s1) (fst g)) (db s1) (fst g) (snd g)\<rparr>"
  define a2 where "a2 = s2\<lparr>res := (res s2)\<lparr>patientsSummary := (patientsSummary (res s2))(fst g \<mapsto>
                           \<lparr>patientName = name p, recordsProcessed = length (snd g),
                            newAnomalies = 0, criticalAnomalies = 0, warningAnomalies = 0\<rparr>)\<rparr>,
                det := load_context (resetPatient (det s2) (fst g)) (db s2) (fst g) (snd g)\<rparr>"
  define b1 where "b1 = foldl (process_record clock1 no_faults True (fst g) p) a1 (snd g)"
  define b2 where "b2 = foldl (process_record clock2 fl2 upd2 (fst g) p) a2 (snd g)"
  have p1: "process_patient clock1 no_faults True pm s1 g = b1\<lparr>det := resetPatient (det b1) (fst g)\<rparr>"
    using Some by (simp add: process_patient_def Let_def a1_def b1_def)
  have p2: "process_patient clock2 fl2 upd2 pm s2 g = b2\<lparr>det := resetPatient (det b2) (fst g)\<rparr>"
    using Some by (simp add: process_patient_def Let_def a2_def b2_def)
  have w: "dataWindow (det a1) (fst g) = dataWindow (det a2) (fst g)"
    using load_context_window [OF recs] by (simp add: a1_def a2_def)
  have pc: "processed (res a1) = processed (res a2)" using proc by (simp add: a1_def a2_def)
  have k: "keys b1 \<subseteq> keys a2" using sub by (simp add: p1 a2_def)
  have "quiet a2 b2"
    unfolding b2_def using k unfolding b1_def by (rule prs_replay [OF night w pc])
  then show ?thesis by (simp add: p2 quiet_def a2_def)
qed

lemma pps_replay:
  assumes night: "\<forall>n. isNight (clock2 n) = isNight (clock1 n)"
  shows "processed (res s1) = processed (res s2) \<Longrightarrow>
    healthRecords (db s1) = healthRecords (db s2) \<Longrightarrow>
    keys (foldl (process_patient clock1 no_faults True pm) s1 gs) \<subseteq> keys s2 \<Longrightarrow>
    quiet s2 (foldl (process_patient clock2 fl2 upd2 pm) s2 gs)"
proof (induction gs arbitrary: s1 s2)
  case Nil
  show ?case by (simp add: quiet_refl)
next
  case (Cons g gs)
  let ?s1 = "process_patient clock1 no_faults True pm s1 g"
  let ?s2 = "process_patient clock2 fl2 upd2 pm s2 g"
  have sub: "keys ?s1 \<subseteq> keys s2"
    using pps_keys [of ?s1 clock1 no_faults True pm gs] Cons.prems(3) by auto
  have q: "quiet s2 ?s2" by (rule pp_replay [OF night Cons.prems(1,2) sub])
  have pc: "processed (res ?s1) = processed (res ?s2)"
    by (simp add: pp_processed Cons.prems(1))
  have hr: "healthRecords (db ?s1) = healthRecords (db ?s2)"
    using q Cons.prems(2) by (simp add: pp_records quiet_def)
  have k: "keys (foldl (process_patient clock1 no_faults True pm) ?s1 gs) \<subseteq> keys ?s2"
    using Cons.prems(3) q by (simp add: quiet_def)
  have "quiet ?s2 (foldl (process_patient clock2 fl2 upd2 pm) ?s2 gs)"
    by (rule Cons.IH [OF pc hr k])
  with q show ?case by (simp add: quiet_trans [of s2 ?s2])
qed

section \<open>The groups match the query\<close>

lemma entries_order_set: "set (entries_order ks) = set ks"
  by (auto simp: entries_order_def)

lemma groups_match:
  "\<forall>g\<in>set (recordsByPatient (find_records dbs opts)).
      \<forall>r\<in>set (snd g). matches_query opts (fst g) (recordedAt r)"
  by (auto simp: recordsByPatient_def find_records_def)

section \<open>The detector keeps its model through a run\<close>

lemma detect_model:
  "hasHealthRecord (snd (detectAnomalies h d pid v p)) = hasHealthRecord d"
  by (simp add: detectAnomalies_def Let_def addToWindow_def push_history_def)

lemma prs_model:
  "hasHealthRecord (det (foldl (process_record clock fl upd pid p) st rs)) = hasHealthRecord (det st)"
  by (induction rs arbitrary: st) (simp_all add: pr_det detect_model)

lemma appendAll_model: "hasHealthRecord (appendAll d pid vs) = hasHealthRecord d"
  by (induction vs rule: rev_induct) (simp_all add: appendAll_snoc addToWindow_def Let_def)

lemma pp_model:
  "hasHealthRecord (det (process_patient clock fl upd pm st g)) = hasHealthRecord (det st)"
  by (cases "pm (fst g)"; cases "snd g")
     (simp_all add: process_patient_def Let_def prs_model load_context_def appendAll_model
        resetPatient_def del: foldl_Cons)

lemma pps_model:
  "hasHealthRecord (det (foldl (process_patient clock fl upd pm) st gs)) = hasHealthRecord (det st)"
  by (induction gs arbitrary: st) (simp_all add: pp_model)

lemma run_model:
  "hasHealthRecord (fst (snd (detectRetrospectiveAnomalies clock fl d dbs opts))) = hasHealthRecord d"
  by (simp add: detectRetrospectiveAnomalies_def Let_def pps_model)

lemma run_returns:
  "hasHealthRecord d \<Longrightarrow> \<exists>r. fst (detectRetrospectiveAnomalies clock fl d dbs opts) = Inr r"
  by (simp add: detectRetrospectiveAnomalies_def Let_def)

section \<open>Concrete runs\<close>

lemmas replay_defs = window_detector_def new_detector_def collect_alerts_def
  checkCriticalVitals_def hr_alerts_def bp_alerts_def spo2_alerts_def temp_alerts_def
  fall_alerts_def checkStatisticalAnomalies_def checkBehavioralChanges_def addToWindow_def
  isNight_def avgRecentMotion_def nightActivityCount_def last_n_def recordedAt_def Let_def

lemma route_detector_model: "hasHealthRecord route_detector"
  by (simp add: route_detector_def setHealthRecordModel_def)

lemma all_opts_update: "updateDatabase all_opts"
  by (simp add: all_opts_def)

lemma not_index: "\<not> is_array_index ''P001''"
  by (simp add: is_array_index_def digit_of_def)

lemma margaret_map: "patientMap [margaret] ''P001'' = Some margaret"
  by (simp add: patientMap_def margaret_def)

lemma all_anomalies: "find_anomalies dbs all_opts = anomalies dbs"
  by (simp add: find_anomalies_def matches_query_def pid_filter_def in_range_def all_opts_def)

lemma run_records:
  "healthRecords (snd (snd (detectRetrospectiveAnomalies clock fl d dbs opts))) = healthRecords dbs
   \<and> patients (snd (snd (detectRetrospectiveAnomalies clock fl d dbs opts))) = patients dbs"
  by (simp add: detectRetrospectiveAnomalies_def Let_def pps_records)

text \<open>
  A run over a database of one active patient, without context, whose records are all in
  one group: the run is the replay of that group.
\<close>

lemma single_patient_run:
  assumes model: "hasHealthRecord d"
    and ps: "find_patients dbs all_opts = [margaret]"
    and rs: "find_records dbs all_opts = r0 # rs"
    and gs: "recordsByPatient (r0 # rs) = [(''P001'', r0 # rs)]"
    and cx: "find_context dbs ''P001'' (recordedAt r0) = []"
  shows "detectRetrospectiveAnomalies clock fl d dbs all_opts =
    (let st = foldl (process_record clock fl True ''P001'' margaret)
               \<lparr>res = empty_results\<lparr>patientsSummary := (patientsSummary empty_results)(''P001'' \<mapsto>
                           \<lparr>patientName = name margaret, recordsProcessed = length (r0 # rs),
                            newAnomalies = 0, criticalAnomalies = 0, warningAnomalies = 0\<rparr>)\<rparr>,
                keys = existingAnomalySet (anomalies dbs),
                det = resetPatient d ''P001'', db = dbs\<rparr>
               (r0 # rs)
     in (Inr (res st), resetPatient (det st) ''P001'', db st))"
proof -
  let ?K = "existingAnomalySet (anomalies dbs)"
  have c: "load_context (resetPatient d ''P001'') dbs ''P001'' (r0 # rs) = resetPatient d ''P001''"
    by (simp add: load_context_def cx appendAll_def)
  have "process_patient clock fl True (patientMap [margaret])
          \<lparr>res = empty_results, keys = ?K, det = d, db = dbs\<rparr> (''P001'', r0 # rs)
        = (let st = foldl (process_record clock fl True ''P001'' margaret)
               \<lparr>res = empty_results\<lparr>patientsSummary := (patientsSummary empty_results)(''P001'' \<mapsto>
                           \<lparr>patientName = name margaret, recordsProcessed = length (r0 # rs),
                            newAnomalies = 0, criticalAnomalies = 0, warningAnomalies = 0\<rparr>)\<rparr>,
                keys = ?K, det = resetPatient d ''P001'', db = dbs\<rparr>
               (r0 # rs)
           in st\<lparr>det := resetPatient (det st) ''P001''\<rparr>)"
    unfolding process_patient_def Let_def by (simp add: margaret_map c del: foldl_Cons)
  moreover have "foldl (process_patient clock fl True (patientMap [margaret]))
          \<lparr>res = empty_results, keys = ?K, det = d, db = dbs\<rparr> [(''P001'', r0 # rs)]
        = process_patient clock fl True (patientMap [margaret])
          \<lparr>res = empty_results, keys = ?K, det = d, db = dbs\<rparr> (''P001'', r0 # rs)"
    by simp
  ultimately show ?thesis
    using model
    by (simp add: detectRetrospectiveAnomalies_def ps rs gs all_opts_update all_anomalies Let_def
          del: foldl_Cons)
qed

lemma single_patient_new:
  assumes model: "hasHealthRecord d"
    and ps: "find_patients dbs all_opts = [margaret]"
    and rs: "find_records dbs all_opts = r0 # rs"
    and gs: "recordsByPatient (r0 # rs) = [(''P001'', r0 # rs)]"
    and cx: "find_context dbs ''P001'' (recordedAt r0) = []"
  shows "run_new (detectRetrospectiveAnomalies clock no_faults d dbs all_opts)
       = Some (length (replay_new clock ''P001'' margaret 0 None
                         (existingAnomalySet (anomalies dbs)) (r0 # rs)))
     \<and> map (\<lambda>a. (an_patientId a, detectedAt a))
          (anomalies (snd (snd (detectRetrospectiveAnomalies clock no_faults d dbs all_opts))))
       = map (\<lambda>a. (an_patientId a, detectedAt a)) (anomalies dbs)
         @ map (Pair ''P001'')
             (replay_new clock ''P001'' margaret 0 None (existingAnomalySet (anomalies dbs)) (r0 # rs))"
  unfolding single_patient_run [OF assms] Let_def run_new_def
  using replay_sound [of clock "''P001''" margaret
      "\<lparr>res = empty_results\<lparr>patientsSummary := (patientsSummary empty_results)(''P001'' \<mapsto>
                           \<lparr>patientName = name margaret, recordsProcessed = length (r0 # rs),
                            newAnomalies = 0, criticalAnomalies = 0, warningAnomalies = 0\<rparr>)\<rparr>,
                keys = existingAnomalySet (anomalies dbs),
                det = resetPatient d ''P001'', db = dbs\<rparr>" "r0 # rs"]
  by (simp add: empty_results_def del: foldl_Cons replay_new.simps)

text \<open>A run over a database that holds the eight records and the one patient.\<close>

lemma walk_new:
  assumes "hasHealthRecord d" and pt: "patients dbs = [margaret]"
    and hr: "healthRecords dbs = walk_recs"
  shows "run_new (detectRetrospectiveAnomalies clock no_faults d dbs all_opts)
       = Some (length (replay_new clock ''P001'' margaret 0 None
                         (existingAnomalySet (anomalies dbs)) walk_recs))
     \<and> map (\<lambda>a. (an_patientId a, detectedAt a))
          (anomalies (snd (snd (detectRetrospectiveAnomalies clock no_faults d dbs all_opts))))
       = map (\<lambda>a. (an_patientId a, detectedAt a)) (anomalies dbs)
         @ map (Pair ''P001'')
             (replay_new clock ''P001'' margaret 0 None (existingAnomalySet (anomalies dbs)) walk_recs)"
proof -
  have w: "walk_recs = walk_record 0 # tl walk_recs" by (simp add: walk_recs_def)
  have ps: "find_patients dbs all_opts = [margaret]"
    by (simp add: find_patients_def pid_filter_def all_opts_def pt margaret_def)
  have "sort_key recordedAt walk_recs = walk_recs"
    by (simp add: walk_recs_def recordedAt_def walk_record_def)
  then have "find_records dbs all_opts = walk_recs"
    by (simp add: find_records_def matches_query_def pid_filter_def in_range_def all_opts_def hr)
  then have rs: "find_records dbs all_opts = walk_record 0 # tl walk_recs" using w by simp
  have "recordsByPatient walk_recs = [(''P001'', walk_recs)]"
    by (simp add: recordsByPatient_def entries_order_def first_occurrences_def not_index
        walk_recs_def walk_record_def)
  then have gs: "recordsByPatient (walk_record 0 # tl walk_recs)
                   = [(''P001'', walk_record 0 # tl walk_recs)]" using w by simp
  have cx: "find_context dbs ''P001'' (recordedAt (walk_record 0)) = []"
    by (simp add: find_context_def hr walk_recs_def recordedAt_def walk_record_def)
  show ?thesis
    using single_patient_new [OF assms(1) ps rs gs cx, of clock] w by simp
qed

lemma walk_keys:
  "anomalyKey ''P001'' 0 = ''P001-0''"
  "anomalyKey ''P001'' 2100000 = ''P001-2100000''"
  by (simp_all add: anomalyKey_def minute_floor_def show_int_def digits10.simps)

text \<open>By day only the first of the eight records is an anomaly (bradycardia).\<close>

lemma walk_replay_day:
  "replay_new (\<lambda>_. 12) ''P001'' margaret 0 None {} walk_recs = [0]"
  by (simp add: replay_defs walk_recs_def walk_record_def walk_keys
        normalVitals_def systolic_normal margaret_def)

text \<open>By night the eighth record is one as well (nocturnal activity).\<close>

lemma walk_replay_night:
  "replay_new (\<lambda>_. 23) ''P001'' margaret 0 None {} walk_recs = [0, 2100000]"
  by (simp add: replay_defs walk_recs_def walk_record_def walk_keys
        normalVitals_def systolic_normal margaret_def)

text \<open>By night, with the key of the first record in the set, the eighth is the only new one.\<close>

lemma walk_replay_again:
  "replay_new (\<lambda>_. 23) ''P001'' margaret 0 None {''P001-0''} walk_recs = [2100000]"
  by (simp add: replay_defs walk_recs_def walk_record_def walk_keys
        normalVitals_def systolic_normal margaret_def)

lemma walk_day:
  assumes "hasHealthRecord d"
  shows "run_new (detectRetrospectiveAnomalies (\<lambda>_. 12) no_faults d walk_db all_opts) = Some 1
   \<and> map (\<lambda>a. (an_patientId a, detectedAt a))
        (anomalies (snd (snd (detectRetrospectiveAnomalies (\<lambda>_. 12) no_faults d walk_db all_opts))))
      = [(''P001'', 0)]"
proof -
  have pt: "patients walk_db = [margaret]" and hr: "healthRecords walk_db = walk_recs"
    and an: "anomalies walk_db = []"
    by (simp_all add: walk_db_def)
  show ?thesis
    using walk_new [OF assms pt hr, of "\<lambda>_. 12"]
    by (simp add: an existingAnomalySet_def walk_replay_day del: replay_new.simps)
qed

lemma walk_night:
  assumes "hasHealthRecord d"
  shows "run_new (detectRetrospectiveAnomalies (\<lambda>_. 23) no_faults d walk_db all_opts) = Some 2"
proof -
  have pt: "patients walk_db = [margaret]" and hr: "healthRecords walk_db = walk_recs"
    and an: "anomalies walk_db = []"
    by (simp_all add: walk_db_def)
  show ?thesis
    using walk_new [OF assms pt hr, of "\<lambda>_. 23"]
    by (simp add: an existingAnomalySet_def walk_replay_night del: replay_new.simps)
qed

lemma walk_night_again:
  assumes "hasHealthRecord d" and pt: "patients dbs = [margaret]"
    and hr: "healthRecords dbs = walk_recs"
    and an: "map (\<lambda>a. (an_patientId a, detectedAt a)) (anomalies dbs) = [(''P001'', 0)]"
  shows "run_new (detectRetrospectiveAnomalies (\<lambda>_. 23) no_faults d dbs all_opts) = Some 1"
proof -
  have "existingAnomalySet (anomalies dbs)
      = set (map (\<lambda>(p, t). anomalyKey p t) (map (\<lambda>a. (an_patientId a, detectedAt a)) (anomalies dbs)))"
    by (simp add: existingAnomalySet_def comp_def)
  then have k: "existingAnomalySet (anomalies dbs) = {''P001-0''}"
    unfolding an by (simp add: walk_keys)
  show ?thesis
    using walk_new [OF assms(1) pt hr, of "\<lambda>_. 23"] by (simp add: k walk_replay_again del: replay_new.simps)
qed

text \<open>The run over the database with the one bradycardia record persists one anomaly.\<close>

lemma brady_new:
  assumes "hasHealthRecord d"
  shows "run_new (detectRetrospectiveAnomalies clock no_faults d brady_db all_opts) = Some 1
     \<and> map (\<lambda>a. (an_patientId a, detectedAt a))
          (anomalies (snd (snd (detectRetrospectiveAnomalies clock no_faults d brady_db all_opts))))
       = [(''P001'', 0)]"
proof -
  have ps: "find_patients brady_db all_opts = [margaret]"
    by (simp add: find_patients_def pid_filter_def all_opts_def brady_db_def margaret_def)
  have rs: "find_records brady_db all_opts = [brady_record]"
    by (simp add: find_records_def matches_query_def pid_filter_def in_range_def all_opts_def
        brady_db_def)
  have gs: "recordsByPatient [brady_record] = [(''P001'', [brady_record])]"
    by (simp add: recordsByPatient_def entries_order_def first_occurrences_def not_index
        brady_record_def)
  have cx: "find_context brady_db ''P001'' (recordedAt brady_record) = []"
    by (simp add: find_context_def brady_db_def)
  have an: "anomalies brady_db = []" by (simp add: brady_db_def)
  have rp: "replay_new clock ''P001'' margaret 0 None {} [brady_record] = [0]"
    by (simp add: replay_defs brady_record_def normalVitals_def systolic_normal margaret_def)
  show ?thesis
    using single_patient_new [OF assms ps rs gs cx, of clock]
    by (simp add: an existingAnomalySet_def rp del: replay_new.simps)
qed

section \<open>A second run finds nothing new\<close>

text \<open>
  C3, as stated, fails: the behavioural stage asks the wall clock of the run, not the
  time of the record. Over the eight records with a motion level of 0.7, a first run at
  noon finds one new anomaly, the bradycardia of the first record, and persists it; a
  second run with the same options at 23 hours, on the database and with the detector
  that the first run left, reports one new anomaly again (the nocturnal activity of the
  eighth record).
\<close>

theorem wall_clock_counterexample:
  "updateDatabase all_opts
   \<and> run_new (detectRetrospectiveAnomalies (\<lambda>_. 12) no_faults route_detector walk_db all_opts)
       = Some 1
   \<and> map (\<lambda>a. (an_patientId a, detectedAt a))
        (anomalies (snd (snd
          (detectRetrospectiveAnomalies (\<lambda>_. 12) no_faults route_detector walk_db all_opts))))
       = [(''P001'', 0)]
   \<and> run_new (detectRetrospectiveAnomalies (\<lambda>_. 23) no_faults
        (fst (snd (detectRetrospectiveAnomalies (\<lambda>_. 12) no_faults route_detector walk_db all_opts)))
        (snd (snd (detectRetrospectiveAnomalies (\<lambda>_. 12) no_faults route_detector walk_db all_opts)))
        all_opts) = Some 1"
proof -
  let ?run1 = "detectRetrospectiveAnomalies (\<lambda>_. 12) no_faults route_detector walk_db all_opts"
  have m: "hasHealthRecord (fst (snd ?run1))"
    by (simp add: run_model route_detector_model)
  have pt: "patients (snd (snd ?run1)) = [margaret]"
    and hr: "healthRecords (snd (snd ?run1)) = walk_recs"
    using run_records [of "\<lambda>_. 12" no_faults route_detector walk_db all_opts]
    by (simp_all add: walk_db_def)
  have d: "run_new ?run1 = Some 1"
    and an: "map (\<lambda>a. (an_patientId a, detectedAt a)) (anomalies (snd (snd ?run1))) = [(''P001'', 0)]"
    using walk_day [OF route_detector_model] by simp_all
  have "run_new (detectRetrospectiveAnomalies (\<lambda>_. 23) no_faults (fst (snd ?run1))
          (snd (snd ?run1)) all_opts) = Some 1"
    by (rule walk_night_again [OF m pt hr an])
  with d an all_opts_update show ?thesis by (simp only: simp_thms)
qed

text \<open>
  C3, amended. Let a first run with \<open>updateDatabase\<close> true return results, no write of it
  having failed, and let a second run with the same options start from the database that
  the first run left, with a detector that has its model; the second run may fail to
  write, and its wall clock may differ from the first run's, as long as at every replayed
  record it is night in both runs or day in both. Then the second run returns results
  with no new anomaly (and so no critical and no warning one), and leaves the database as
  it found it. The first run leaves the patients and the health records as they were.
\<close>

theorem retrospective_second_run:
  assumes run1: "detectRetrospectiveAnomalies clock1 no_faults d dbs opts = (Inr r1, d1, db1)"
    and upd: "updateDatabase opts"
    and night: "\<forall>n. isNight (clock2 n) = isNight (clock1 n)"
    and model: "hasHealthRecord d'"
  shows "\<exists>r2 d2. detectRetrospectiveAnomalies clock2 fl2 d' db1 opts = (Inr r2, d2, db1)
            \<and> newAnomaliesDetected r2 = 0 \<and> criticalCount r2 = 0 \<and> warningCount r2 = 0
            \<and> healthRecords db1 = healthRecords dbs \<and> patients db1 = patients dbs"
proof -
  have hd: "hasHealthRecord d"
    using run1 by (auto simp: detectRetrospectiveAnomalies_def split: if_splits)
  let ?ps = "find_patients dbs opts"
  show ?thesis
  proof (cases "length ?ps = 0")
    case True
    then have "db1 = dbs" using run1 hd by (simp add: detectRetrospectiveAnomalies_def)
    then show ?thesis using True model
      by (simp add: detectRetrospectiveAnomalies_def empty_results_def)
  next
    case False
    let ?gs = "recordsByPatient (find_records dbs opts)"
    let ?pm = "patientMap ?ps"
    define s1 where "s1 = \<lparr>res = empty_results, keys = existingAnomalySet (find_anomalies dbs opts),
                        det = d, db = dbs\<rparr>"
    define f1 where "f1 = foldl (process_patient clock1 no_faults True ?pm) s1 ?gs"
    have "detectRetrospectiveAnomalies clock1 no_faults d dbs opts = (Inr (res f1), det f1, db f1)"
      using hd False upd by (simp add: detectRetrospectiveAnomalies_def Let_def s1_def f1_def)
    with run1 have db1: "db1 = db f1" by simp
    have keep: "healthRecords db1 = healthRecords dbs \<and> patients db1 = patients dbs"
      unfolding db1 f1_def using pps_records [of clock1 no_faults True ?pm s1 ?gs]
      by (simp add: s1_def)
    have fp: "find_patients db1 opts = ?ps"
      using keep by (simp add: find_patients_def split: option.splits)
    have fr: "find_records db1 opts = find_records dbs opts"
      using keep by (simp add: find_records_def)
    define s2 where "s2 = \<lparr>res = empty_results, keys = existingAnomalySet (find_anomalies db1 opts),
                        det = d', db = db1\<rparr>"
    define f2 where "f2 = foldl (process_patient clock2 fl2 (updateDatabase opts) ?pm) s2 ?gs"
    have run2: "detectRetrospectiveAnomalies clock2 fl2 d' db1 opts = (Inr (res f2), det f2, db f2)"
      using model False by (simp add: detectRetrospectiveAnomalies_def Let_def fp fr s2_def f2_def)
    have "keys_persisted opts s1" by (simp add: keys_persisted_def s1_def)
    then have "keys_persisted opts f1"
      unfolding f1_def using groups_match by (rule pps_persisted)
    then have sub: "keys f1 \<subseteq> keys s2" by (simp add: keys_persisted_def s2_def db1)
    have "quiet s2 f2"
      unfolding f2_def
    proof (rule pps_replay [OF night])
      show "processed (res s1) = processed (res s2)" by (simp add: s1_def s2_def)
      show "healthRecords (db s1) = healthRecords (db s2)" using keep by (simp add: s1_def s2_def)
      show "keys (foldl (process_patient clock1 no_faults True ?pm) s1 ?gs) \<subseteq> keys s2"
        using sub by (simp add: f1_def)
    qed
    then have "newAnomaliesDetected (res f2) = 0 \<and> criticalCount (res f2) = 0
        \<and> warningCount (res f2) = 0 \<and> db f2 = db1"
      by (simp add: quiet_def s2_def empty_results_def)
    then show ?thesis using keep by (simp add: run2)
  qed
qed

theorem retrospective_second_run_witness:
  "updateDatabase all_opts
   \<and> isNight 2 = isNight 23
   \<and> hasHealthRecord route_detector
   \<and> run_new (detectRetrospectiveAnomalies (\<lambda>_. 23) no_faults route_detector walk_db all_opts)
       = Some 2
   \<and> run_new (detectRetrospectiveAnomalies (\<lambda>_. 2) no_faults route_detector
        (snd (snd (detectRetrospectiveAnomalies (\<lambda>_. 23) no_faults route_detector walk_db all_opts)))
        all_opts) = Some 0"
proof -
  obtain r1 where "fst (detectRetrospectiveAnomalies (\<lambda>_. 23) no_faults route_detector walk_db all_opts)
      = Inr r1"
    using run_returns [OF route_detector_model] by blast
  then have run1: "detectRetrospectiveAnomalies (\<lambda>_. 23) no_faults route_detector walk_db all_opts
      = (Inr r1,
         fst (snd (detectRetrospectiveAnomalies (\<lambda>_. 23) no_faults route_detector walk_db all_opts)),
         snd (snd (detectRetrospectiveAnomalies (\<lambda>_. 23) no_faults route_detector walk_db all_opts)))"
    by (simp add: prod_eq_iff)
  have night: "\<forall>n. isNight ((\<lambda>_. 2) n) = isNight ((\<lambda>_. 23) n)" by (simp add: isNight_def)
  obtain r2 d2 where "detectRetrospectiveAnomalies (\<lambda>_. 2) no_faults route_detector
        (snd (snd (detectRetrospectiveAnomalies (\<lambda>_. 23) no_faults route_detector walk_db all_opts)))
        all_opts
      = (Inr r2, d2,
         snd (snd (detectRetrospectiveAnomalies (\<lambda>_. 23) no_faults route_detector walk_db all_opts)))"
    and "newAnomaliesDetected r2 = 0"
    using retrospective_second_run [OF run1 all_opts_update night route_detector_model, of no_faults]
    by blast
  then have "run_new (detectRetrospectiveAnomalies (\<lambda>_. 2) no_faults route_detector
        (snd (snd (detectRetrospectiveAnomalies (\<lambda>_. 23) no_faults route_detector walk_db all_opts)))
        all_opts) = Some 0"
    by (simp add: run_new_def)
  then show ?thesis
    using walk_night [OF route_detector_model] all_opts_update route_detector_model
    by (simp add: isNight_def)
qed

section \<open>Requests with invalid dates\<close>

text \<open>
  C9, as stated, fails for the empty string: it is not a date, but the route takes an empty
  \<open>startDate\<close> for an absent one, does not reject the request and runs the detection over
  all records; on the database with the one bradycardia record the run persists an anomaly.
\<close>

theorem empty_start_counterexample:
  "parse_field doc_dates (b_startDate empty_start) = None
   \<and> \<not> rejected (fst (post_retrospective doc_dates (\<lambda>_. 12) no_faults route_detector brady_db
                        empty_start))
   \<and> anomalies brady_db = []
   \<and> map (\<lambda>a. (an_patientId a, detectedAt a)) (anomalies (snd (snd
        (post_retrospective doc_dates (\<lambda>_. 12) no_faults route_detector brady_db empty_start))))
       = [(''P001'', 0)]"
proof -
  let ?run = "detectRetrospectiveAnomalies (\<lambda>_. 12) no_faults route_detector brady_db all_opts"
  have o: "\<lparr>o_patientId = None, startDate = None, endDate = None, updateDatabase = True\<rparr> = all_opts"
    by (simp add: all_opts_def)
  have p: "post_retrospective doc_dates (\<lambda>_. 12) no_faults route_detector brady_db empty_start
      = (case ?run of
                (Inl msg, d', dbs') \<Rightarrow> (Status500 msg, d', dbs')
              | (Inr r, d', dbs') \<Rightarrow> (Status200 r, d', dbs'))"
    by (simp add: post_retrospective_def empty_start_def truthy_def o)
  obtain r where r: "fst ?run = Inr r"
    using run_returns [OF route_detector_model] by blast
  then have "?run = (Inr r, fst (snd ?run), snd (snd ?run))" by (simp add: prod_eq_iff)
  then have q: "post_retrospective doc_dates (\<lambda>_. 12) no_faults route_detector brady_db empty_start
      = (Status200 r, fst (snd ?run), snd (snd ?run))"
    unfolding p by (simp add: prod_eq_iff split: prod.splits sum.splits)
  have a: "parse_field doc_dates (b_startDate empty_start) = None"
    by (simp add: parse_field_def empty_start_def doc_dates_def)
  have b: "anomalies brady_db = []" by (simp add: brady_db_def)
  show ?thesis
    unfolding q using brady_new [OF route_detector_model, of "\<lambda>_. 12"] a b
    by (simp add: rejected_def)
qed

text \<open>
  C9, amended. A request whose \<open>startDate\<close> or \<open>endDate\<close> is a non-empty string that is
  not a date, or whose two dates are non-empty, parse, and have the start after the end,
  is answered with status 400, and the detector and the database are the ones given: the
  run is not started.
\<close>

theorem invalid_dates_rejected:
  assumes "(\<exists>s. b_startDate body = Some s \<and> s \<noteq> [] \<and> parseDate s = None)
         \<or> (\<exists>e. b_endDate body = Some e \<and> e \<noteq> [] \<and> parseDate e = None)
         \<or> (\<exists>s e ts te. b_startDate body = Some s \<and> s \<noteq> [] \<and> b_endDate body = Some e \<and> e \<noteq> []
               \<and> parseDate s = Some ts \<and> parseDate e = Some te \<and> ts > te)"
  shows "rejected (fst (post_retrospective parseDate clock fl d dbs body))
       \<and> snd (post_retrospective parseDate clock fl d dbs body) = (d, dbs)"
proof -
  consider (bad_start) s where "b_startDate body = Some s" and "s \<noteq> []" and "parseDate s = None"
    | (bad_end) e where "b_endDate body = Some e" and "e \<noteq> []" and "parseDate e = None"
    | (bad_order) s e ts te where "b_startDate body = Some s" and "s \<noteq> []"
        and "b_endDate body = Some e" and "e \<noteq> []"
        and "parseDate s = Some ts" and "parseDate e = Some te" and "ts > te"
    using assms by blast
  then show ?thesis
  proof cases
    case bad_start
    then show ?thesis
      by (simp add: post_retrospective_def truthy_def parse_field_def rejected_def)
  next
    case bad_end
    then show ?thesis
      by (simp add: post_retrospective_def truthy_def parse_field_def rejected_def)
  next
    case bad_order
    then show ?thesis
      by (simp add: post_retrospective_def truthy_def parse_field_def rejected_def)
  qed
qed

theorem invalid_dates_rejected_witness:
  "doc_dates ''not-a-date'' = None
   \<and> doc_dates ''2024-12-31'' = Some 1735603200000 \<and> doc_dates ''2024-01-01'' = Some 1704067200000
   \<and> post_retrospective doc_dates (\<lambda>_. 12) no_faults route_detector brady_db
        \<lparr>b_patientId = None, b_startDate = Some ''not-a-date'', b_endDate = None,
         b_updateDatabase = None\<rparr>
       = (Status400 ''Invalid startDate format'', route_detector, brady_db)
   \<and> post_retrospective doc_dates (\<lambda>_. 12) no_faults route_detector brady_db
        \<lparr>b_patientId = None, b_startDate = None, b_endDate = Some ''not-a-date'',
         b_updateDatabase = None\<rparr>
       = (Status400 ''Invalid endDate format'', route_detector, brady_db)
   \<and> post_retrospective doc_dates (\<lambda>_. 12) no_faults route_detector brady_db
        \<lparr>b_patientId = None, b_startDate = Some ''2024-12-31'', b_endDate = Some ''2024-01-01'',
         b_updateDatabase = None\<rparr>
       = (Status400 ''startDate cannot be after endDate'', route_detector, brady_db)"
proof -
  let ?b1 = "\<lparr>b_patientId = None, b_startDate = Some ''not-a-date'', b_endDate = None,
         b_updateDatabase = None\<rparr>"
  let ?b2 = "\<lparr>b_patientId = None, b_startDate = None, b_endDate = Some ''not-a-date'',
         b_updateDatabase = None\<rparr>"
  let ?b3 = "\<lparr>b_patientId = None, b_startDate = Some ''2024-12-31'', b_endDate = Some ''2024-01-01'',
         b_updateDatabase = None\<rparr>"
  have a: "doc_dates ''not-a-date'' = None" by (simp add: doc_dates_def)
  have b: "doc_dates ''2024-12-31'' = Some 1735603200000" by (simp add: doc_dates_def)
  have c: "doc_dates ''2024-01-01'' = Some 1704067200000" by (simp add: doc_dates_def)
  note t = invalid_dates_rejected [of _ doc_dates "\<lambda>_. 12" no_faults route_detector brady_db]
  have s1: "snd (post_retrospective doc_dates (\<lambda>_. 12) no_faults route_detector brady_db ?b1)
       = (route_detector, brady_db)"
    using t [of ?b1] a by simp
  have s2: "snd (post_retrospective doc_dates (\<lambda>_. 12) no_faults route_detector brady_db ?b2)
       = (route_detector, brady_db)"
    using t [of ?b2] a by simp
  have s3: "snd (post_retrospective doc_dates (\<lambda>_. 12) no_faults route_detector brady_db ?b3)
       = (route_detector, brady_db)"
    using t [of ?b3] b c by simp
  have f1: "fst (post_retrospective doc_dates (\<lambda>_. 12) no_faults route_detector brady_db ?b1)
       = Status400 ''Invalid startDate format''"
    by (simp add: post_retrospective_def truthy_def parse_field_def a)
  have f2: "fst (post_retrospective doc_dates (\<lambda>_. 12) no_faults route_detector brady_db ?b2)
       = Status400 ''Invalid endDate format''"
    by (simp add: post_retrospective_def truthy_def parse_field_def a)
  have f3: "fst (post_retrospective doc_dates (\<lambda>_. 12) no_faults route_detector brady_db ?b3)
       = Status400 ''startDate cannot be after endDate''"
    by (simp add: post_retrospective_def truthy_def parse_field_def b c)
  have e1: "post_retrospective doc_dates (\<lambda>_. 12) no_faults route_detector brady_db ?b1
       = (Status400 ''Invalid startDate format'', route_detector, brady_db)"
    using s1 f1 by (simp only: prod_eq_iff fst_conv snd_conv)
  have e2: "post_retrospective doc_dates (\<lambda>_. 12) no_faults route_detector brady_db ?b2
       = (Status400 ''Invalid endDate format'', route_detector, brady_db)"
    using s2 f2 by (simp only: prod_eq_iff fst_conv snd_conv)
  have e3: "post_retrospective doc_dates (\<lambda>_. 12) no_faults route_detector brady_db ?b3
       = (Status400 ''startDate cannot be after endDate'', route_detector, brady_db)"
    using s3 f3 by (simp only: prod_eq_iff fst_conv snd_conv)
  from a b c e1 e2 e3 show ?thesis by (simp only: simp_thms)
qed

end
